theory Spec2Isabelle
  imports Main "HOL-Library.AList" "HOL-Library.Code_Target_Numeral"
begin

section \<open>JavaScript values, objects and the heap\<close>

text \<open>
  The tree module \<^verbatim>\<open>src/components/cylc/tree/index.js\<close> works on plain JavaScript
  data delivered by GraphQL. A value is a primitive or a reference to an object on the
  heap; two references with the same address are the same object, which is how the
  sharing between tree nodes and the application's records is expressed.
  \<open>JNum n\<close> stands for the number that the integer \<open>n\<close> denotes in JavaScript, which
  is the double-precision number nearest to \<open>n\<close>; numbers with a fractional part are
  not part of the model.
\<close>

datatype jsval = JUndefined | JNull | JBool bool | JNum int | JStr string | JRef nat

text \<open>
  An object has named properties, kept in insertion order; an array additionally has
  its sequence of elements (\<open>elems = Some xs\<close>), a plain object has none.
\<close>

record jsobj =
  props :: "(string \<times> jsval) list"
  elems :: "jsval list option"

type_synonym heap = "jsobj list"

datatype js_error = Error string | TypeError

definition bindE :: "js_error + 'a \<Rightarrow> ('a \<Rightarrow> js_error + 'b) \<Rightarrow> js_error + 'b" where
  "bindE m f = (case m of Inl e \<Rightarrow> Inl e | Inr v \<Rightarrow> f v)"

text \<open>ToBoolean: the falsy values are undefined, null, false, 0 and the empty string.\<close>

fun truthy :: "jsval \<Rightarrow> bool" where
  "truthy JUndefined = False"
| "truthy JNull = False"
| "truthy (JBool b) = b"
| "truthy (JNum n) = (n \<noteq> 0)"
| "truthy (JStr s) = (s \<noteq> [])"
| "truthy (JRef a) = True"

text \<open>
  The heap is the list of its objects and an address is a position in it. An address
  beyond the heap refers to no object; a JavaScript program never holds such a
  reference, and the model reads it as an object without fields and ignores a write
  to it.
\<close>

definition lookup_obj :: "heap \<Rightarrow> nat \<Rightarrow> jsobj option" where
  "lookup_obj h a = (if a < length h then Some (h ! a) else None)"

text \<open>
  Reading \<^verbatim>\<open>v.k\<close>: a TypeError on undefined and null, the stored value on an object
  that has the property, undefined otherwise (the module only reads the keys
  \<^verbatim>\<open>id\<close>, \<^verbatim>\<open>cyclePoint\<close>, \<^verbatim>\<open>state\<close>, \<^verbatim>\<open>jobs\<close>, \<^verbatim>\<open>latestMessage\<close>, \<^verbatim>\<open>cyclePoints\<close>,
  \<^verbatim>\<open>familyProxies\<close> and \<^verbatim>\<open>taskProxies\<close>, none of which a primitive provides).
\<close>

fun getProp :: "heap \<Rightarrow> jsval \<Rightarrow> string \<Rightarrow> js_error + jsval" where
  "getProp h JUndefined k = Inl TypeError"
| "getProp h JNull k = Inl TypeError"
| "getProp h (JRef a) k =
     (case lookup_obj h a of
        None \<Rightarrow> Inr JUndefined
      | Some ob \<Rightarrow> (case map_of (props ob) k of None \<Rightarrow> Inr JUndefined | Some v \<Rightarrow> Inr v))"
| "getProp h v k = Inr JUndefined"

text \<open>
  Writing \<^verbatim>\<open>v.k = x\<close>. The file is an ES module and therefore strict code: assigning
  a property on a primitive raises a TypeError. On an object the property is updated
  in place or appended.
\<close>

fun setProp :: "heap \<Rightarrow> jsval \<Rightarrow> string \<Rightarrow> jsval \<Rightarrow> js_error + heap" where
  "setProp h (JRef a) k x =
     (if a < length h
      then Inr (h[a := (h ! a)\<lparr>props := AList.update k x (props (h ! a))\<rparr>])
      else Inr h)"
| "setProp h v k x = Inl TypeError"

text \<open>\<^verbatim>\<open>Array.isArray\<close>\<close>

fun isArray :: "heap \<Rightarrow> jsval \<Rightarrow> bool" where
  "isArray h (JRef a) =
     (case lookup_obj h a of None \<Rightarrow> False | Some ob \<Rightarrow> elems ob \<noteq> None)"
| "isArray h v = False"

text \<open>
  The values a \<^verbatim>\<open>for ... of\<close> loop visits: the elements of an array, the characters
  of a string; anything else is not iterable and raises a TypeError.
\<close>

fun iterate :: "heap \<Rightarrow> jsval \<Rightarrow> js_error + jsval list" where
  "iterate h (JRef a) =
     (case lookup_obj h a of
        None \<Rightarrow> Inl TypeError
      | Some ob \<Rightarrow> (case elems ob of None \<Rightarrow> Inl TypeError | Some xs \<Rightarrow> Inr xs))"
| "iterate h (JStr s) = Inr (map (\<lambda>c. JStr [c]) s)"
| "iterate h v = Inl TypeError"

subsection \<open>ToString\<close>

text \<open>
  Printing a number. An integer denotes the nearest double-precision number, ties
  going to the even significand (\<open>round_double\<close>); from \<open>2 ^ 1024\<close> on that is
  \<^verbatim>\<open>Infinity\<close>. JavaScript prints a number with the fewest digits that still denote
  it, taking the digits nearest to it if there is a choice (\<open>shortest_from\<close> tries
  one digit, two digits and so on), followed by zeros up to 21 digits in all and in
  exponent form beyond.
\<close>

fun dec_nat :: "nat \<Rightarrow> string" where
  "dec_nat n =
     (if n < 10 then [''0123456789'' ! n]
      else dec_nat (n div 10) @ [''0123456789'' ! (n mod 10)])"

declare dec_nat.simps [simp del]

fun bit_length :: "nat \<Rightarrow> nat" where
  "bit_length n = (if n = 0 then 0 else Suc (bit_length (n div 2)))"

declare bit_length.simps [simp del]

definition round_double :: "nat \<Rightarrow> nat" where
  "round_double m =
     (if bit_length m \<le> 53 then m
      else let e = bit_length m - 53; q = m div 2 ^ e; r = m mod 2 ^ e; half = 2 ^ (e - 1)
           in (if half < r \<or> (r = half \<and> odd q) then q + 1 else q) * 2 ^ e)"

definition shortest_at :: "nat \<Rightarrow> nat \<Rightarrow> nat option" where
  "shortest_at x k =
     (let p = 10 ^ (length (dec_nat x) - k); f = x div p;
          lo = f * p; hi = (f + 1) * p;
          lo_ok = (round_double lo = x); hi_ok = (round_double hi = x)
      in if lo_ok \<and> hi_ok
         then (if x - lo < hi - x \<or> (x - lo = hi - x \<and> even f) then Some lo else Some hi)
         else if lo_ok then Some lo
         else if hi_ok then Some hi
         else None)"

fun shortest_from :: "nat \<Rightarrow> nat \<Rightarrow> nat \<Rightarrow> nat" where
  "shortest_from x k 0 = x"
| "shortest_from x k (Suc fuel) =
     (case shortest_at x k of Some v \<Rightarrow> v | None \<Rightarrow> shortest_from x (Suc k) fuel)"

definition strip_zeros :: "string \<Rightarrow> string" where
  "strip_zeros s = rev (dropWhile (\<lambda>c. c = CHR ''0'') (rev s))"

definition number_string :: "nat \<Rightarrow> string" where
  "number_string m =
     (let x = round_double m in
      if 2 ^ 1024 \<le> x then ''Infinity''
      else let d = dec_nat (shortest_from x 1 (length (dec_nat x)))
           in if length d \<le> 21 then d
              else let s = strip_zeros d
                   in hd s # (if length s = 1 then [] else CHR ''.'' # tl s) @
                      ''e+'' @ dec_nat (length d - 1))"

text \<open>
  ToString, as a template literal applies it. A plain object prints as
  \<^verbatim>\<open>[object Object]\<close>. An array prints its elements joined by commas, \<^verbatim>\<open>null\<close> and
  \<^verbatim>\<open>undefined\<close> elements as nothing; an array met again while it is being joined
  (\<open>joining\<close> lists those) prints as nothing, which is what ends the recursion.
  Objects that carry a property \<^verbatim>\<open>toString\<close>, \<^verbatim>\<open>valueOf\<close> or \<^verbatim>\<open>join\<close> of their
  own, for which \<^verbatim>\<open>ToString\<close> takes another course and may throw, are not covered:
  what is stated below about a printed id is stated for ids that are not objects.
\<close>

fun join_comma :: "string list \<Rightarrow> string" where
  "join_comma [] = []"
| "join_comma [s] = s"
| "join_comma (s # s' # ss) = s @ '','' @ join_comma (s' # ss)"

function toStr :: "heap \<Rightarrow> nat list \<Rightarrow> jsval \<Rightarrow> string" where
  "toStr h joining JUndefined = ''undefined''"
| "toStr h joining JNull = ''null''"
| "toStr h joining (JBool b) = (if b then ''true'' else ''false'')"
| "toStr h joining (JNum n) =
     (if n < 0 then ''-'' @ number_string (nat (- n)) else number_string (nat n))"
| "toStr h joining (JStr s) = s"
| "toStr h joining (JRef a) =
     (case lookup_obj h a of
        None \<Rightarrow> ''[object Object]''
      | Some ob \<Rightarrow>
          (case elems ob of
             None \<Rightarrow> ''[object Object]''
           | Some xs \<Rightarrow>
               if a \<in> set joining then []
               else join_comma
                      (map (\<lambda>x. if x = JUndefined \<or> x = JNull then []
                                 else toStr h (a # joining) x) xs)))"
  by pat_completeness auto
termination
proof (relation "measure (\<lambda>(h, joining, v). card ({..<length h} - set joining))")
  show "wf (measure (\<lambda>(h, joining, v). card ({..<length h} - set joining)))"
    by simp
  fix h :: heap and joining a ob xs x
  assume "lookup_obj h a = Some ob" and "a \<notin> set joining"
  then have "a \<in> {..<length h} - set joining"
    by (simp add: lookup_obj_def split: if_splits)
  then have "{..<length h} - set (a # joining) \<subset> {..<length h} - set joining"
    by auto
  then have "card ({..<length h} - set (a # joining)) < card ({..<length h} - set joining)"
    by (intro psubset_card_mono) simp_all
  then show "((h, a # joining, x), h, joining, JRef a)
      \<in> measure (\<lambda>(h, joining, v). card ({..<length h} - set joining))"
    by simp
qed

definition toStringJS :: "heap \<Rightarrow> jsval \<Rightarrow> string" where
  "toStringJS h v = toStr h [] v"

section \<open>Tree nodes and the Tree Store\<close>

text \<open>
  A tree node as the factories build it. \<open>nsize\<close>, \<open>nstate_open\<close> and
  \<open>nlatestMessage\<close> are optional: the workflow node has no \<^verbatim>\<open>size\<close> and no
  \<^verbatim>\<open>state\<close>, and only a job node has \<^verbatim>\<open>latestMessage\<close>.
\<close>

datatype tnode = TNode
  (nid: jsval)
  (ntype: string)
  (nnode: jsval)
  (nchildren: "tnode list")
  (nsize: "nat option")
  (nstate_open: "bool option")
  (nlatestMessage: "jsval option")

text \<open>
  Modelled from the spec: the Tree Store (class \<^verbatim>\<open>CylcTree\<close>, imported by
  \<^verbatim>\<open>index.js\<close> but not part of the examined sources) is known only by its five
  insertion operations. It is modelled as the log of the insertions it received, in
  call order.
\<close>

datatype tree_call =
    SetWorkflow tnode
  | AddCyclePoint tnode
  | AddFamilyProxy tnode
  | AddTaskProxy tnode
  | AddJob tnode

type_synonym CylcTree = "tree_call list"

definition setWorkflow :: "CylcTree \<Rightarrow> tnode \<Rightarrow> CylcTree" where
  "setWorkflow t n = t @ [SetWorkflow n]"

definition addCyclePoint :: "CylcTree \<Rightarrow> tnode \<Rightarrow> CylcTree" where
  "addCyclePoint t n = t @ [AddCyclePoint n]"

definition addFamilyProxy :: "CylcTree \<Rightarrow> tnode \<Rightarrow> CylcTree" where
  "addFamilyProxy t n = t @ [AddFamilyProxy n]"

definition addTaskProxy :: "CylcTree \<Rightarrow> tnode \<Rightarrow> CylcTree" where
  "addTaskProxy t n = t @ [AddTaskProxy n]"

definition addJob :: "CylcTree \<Rightarrow> tnode \<Rightarrow> CylcTree" where
  "addJob t n = t @ [AddJob n]"

section \<open>The node factories\<close>

definition JOB_DETAIL_NODE_PROPERTIES :: "(string \<times> string) list" where
  "JOB_DETAIL_NODE_PROPERTIES =
     [(''host id'', ''host''),
      (''job id'', ''batchSysJobId''),
      (''batch sys'', ''batchSysName''),
      (''submit time'', ''submittedTime''),
      (''start time'', ''startedTime''),
      (''finish time'', ''finishedTime''),
      (''latest message'', ''latestMessage'')]"

definition TREE_ITEM_SIZE :: nat where
  "TREE_ITEM_SIZE = 32"

text \<open>
  Each factory takes the heap and returns the node it built together with the heap as
  it leaves it, or the error it raised.
\<close>

definition createWorkflowNode :: "heap \<Rightarrow> jsval \<Rightarrow> js_error + tnode \<times> heap" where
  "createWorkflowNode h workflow =
     bindE (getProp h workflow ''id'') (\<lambda>i.
       Inr (TNode i ''workflow'' workflow [] None None None, h))"

text \<open>
  The cycle-point factory builds a new object \<^verbatim>\<open>{id, name}\<close> for the \<^verbatim>\<open>node\<close> field;
  it is allocated at the next free address.
\<close>

definition createCyclePointNode :: "heap \<Rightarrow> jsval \<Rightarrow> js_error + tnode \<times> heap" where
  "createCyclePointNode h familyProxy =
     bindE (getProp h familyProxy ''cyclePoint'') (\<lambda>i.
     bindE (getProp h familyProxy ''cyclePoint'') (\<lambda>i'.
     bindE (getProp h familyProxy ''cyclePoint'') (\<lambda>nm.
       Inr (TNode i ''cyclepoint'' (JRef (length h)) [] (Some TREE_ITEM_SIZE) (Some True) None,
            h @ [\<lparr>props = [(''id'', i'), (''name'', nm)], elems = None\<rparr>]))))"

definition createFamilyProxyNode :: "heap \<Rightarrow> jsval \<Rightarrow> js_error + tnode \<times> heap" where
  "createFamilyProxyNode h familyProxy =
     bindE (getProp h familyProxy ''id'') (\<lambda>i.
       Inr (TNode i ''family-proxy'' familyProxy [] (Some TREE_ITEM_SIZE) (Some True) None, h))"

definition createTaskProxyNode :: "heap \<Rightarrow> jsval \<Rightarrow> js_error + tnode \<times> heap" where
  "createTaskProxyNode h taskProxy =
     bindE (getProp h taskProxy ''state'') (\<lambda>st.
     bindE (if \<not> truthy st then setProp h taskProxy ''state'' (JStr '''') else Inr h) (\<lambda>h'.
     bindE (getProp h' taskProxy ''id'') (\<lambda>i.
       Inr (TNode i ''task-proxy'' taskProxy [] (Some TREE_ITEM_SIZE) (Some False) None, h'))))"

text \<open>
  \<^verbatim>\<open>latestMessage = ''\<close> is a default parameter: it takes the default when the
  argument is undefined.
\<close>

definition createJobNode :: "heap \<Rightarrow> jsval \<Rightarrow> jsval \<Rightarrow> js_error + tnode \<times> heap" where
  "createJobNode h job latestMessage_arg =
     (let latestMessage = (if latestMessage_arg = JUndefined then JStr '''' else latestMessage_arg)
      in
      bindE (getProp h job ''id'') (\<lambda>di.
        let jobDetailsNode =
              TNode (JStr (toStringJS h di @ ''-details'')) ''job-details'' job []
                (Some (TREE_ITEM_SIZE * length JOB_DETAIL_NODE_PROPERTIES)) (Some False) None
        in
        bindE (getProp h job ''id'') (\<lambda>i.
          Inr (TNode i ''job'' job [jobDetailsNode] (Some TREE_ITEM_SIZE) (Some False)
                 (Some latestMessage), h))))"

section \<open>The validator\<close>

text \<open>\<^verbatim>\<open>a && b\<close> yields \<open>a\<close> when \<open>a\<close> is falsy and does not evaluate \<open>b\<close>.\<close>

definition js_and :: "jsval \<Rightarrow> (js_error + jsval) \<Rightarrow> js_error + jsval" where
  "js_and a b = (if truthy a then b else Inr a)"

definition containsTreeData :: "heap \<Rightarrow> jsval \<Rightarrow> js_error + jsval" where
  "containsTreeData h workflow =
     js_and (JBool (workflow \<noteq> JUndefined))
    (js_and (JBool (workflow \<noteq> JNull))
    (bindE (getProp h workflow ''cyclePoints'') (\<lambda>c1. js_and c1
    (bindE (getProp h workflow ''cyclePoints'') (\<lambda>c2. js_and (JBool (isArray h c2))
    (bindE (getProp h workflow ''familyProxies'') (\<lambda>f1. js_and f1
    (bindE (getProp h workflow ''familyProxies'') (\<lambda>f2. js_and (JBool (isArray h f2))
    (bindE (getProp h workflow ''taskProxies'') (\<lambda>t1. js_and t1
    (bindE (getProp h workflow ''taskProxies'') (\<lambda>t2.
       Inr (JBool (isArray h t2)))))))))))))))"

section \<open>The population routine\<close>

text \<open>
  The routine runs against the Tree Store and the heap; a statement either completes
  or throws, and what it changed before throwing stays changed.
\<close>

type_synonym world = "CylcTree \<times> heap"

type_synonym 'a run = "world \<Rightarrow> (js_error + 'a) \<times> world"

definition bindS :: "'a run \<Rightarrow> ('a \<Rightarrow> 'b run) \<Rightarrow> 'b run" where
  "bindS m f s = (case m s of (Inl e, s') \<Rightarrow> (Inl e, s') | (Inr v, s') \<Rightarrow> f v s')"

definition readH :: "(heap \<Rightarrow> js_error + 'a) \<Rightarrow> 'a run" where
  "readH f s = (f (snd s), s)"

definition updH :: "(heap \<Rightarrow> js_error + 'a \<times> heap) \<Rightarrow> 'a run" where
  "updH f s =
     (case f (snd s) of Inl e \<Rightarrow> (Inl e, s) | Inr (v, h') \<Rightarrow> (Inr v, (fst s, h')))"

definition callT :: "(CylcTree \<Rightarrow> tnode \<Rightarrow> CylcTree) \<Rightarrow> tnode \<Rightarrow> unit run" where
  "callT insert_op n s = (Inr (), (insert_op (fst s) n, snd s))"

text \<open>
  A \<^verbatim>\<open>for ... of\<close> loop over the values its iterable yields. The loop bodies of the
  module allocate objects and write the field \<^verbatim>\<open>state\<close>; none adds, removes or
  replaces an element of an array, so the values the loop visits are those the
  iterable holds when the loop starts.
\<close>

fun forOf :: "(jsval \<Rightarrow> unit run) \<Rightarrow> jsval list \<Rightarrow> unit run" where
  "forOf body [] s = (Inr (), s)"
| "forOf body (x # xs) s =
     (case body x s of (Inl e, s') \<Rightarrow> (Inl e, s') | (Inr u, s') \<Rightarrow> forOf body xs s')"

definition cyclePointBody :: "jsval \<Rightarrow> unit run" where
  "cyclePointBody cyclePoint =
     bindS (updH (\<lambda>h. createCyclePointNode h cyclePoint)) (\<lambda>cyclePointNode.
       callT addCyclePoint cyclePointNode)"

definition familyProxyBody :: "jsval \<Rightarrow> unit run" where
  "familyProxyBody familyProxy =
     bindS (updH (\<lambda>h. createFamilyProxyNode h familyProxy)) (\<lambda>familyProxyNode.
       callT addFamilyProxy familyProxyNode)"

definition jobBody :: "jsval \<Rightarrow> jsval \<Rightarrow> unit run" where
  "jobBody taskProxy job =
     bindS (readH (\<lambda>h. getProp h taskProxy ''latestMessage'')) (\<lambda>latestMessage.
     bindS (updH (\<lambda>h. createJobNode h job latestMessage)) (\<lambda>jobNode.
       callT addJob jobNode))"

definition taskProxyBody :: "jsval \<Rightarrow> unit run" where
  "taskProxyBody taskProxy =
     bindS (updH (\<lambda>h. createTaskProxyNode h taskProxy)) (\<lambda>taskProxyNode.
     bindS (callT addTaskProxy taskProxyNode) (\<lambda>_.
     bindS (readH (\<lambda>h. getProp h taskProxy ''jobs'')) (\<lambda>jobs.
       if truthy jobs
       then bindS (readH (\<lambda>h. bindE (getProp h taskProxy ''jobs'') (iterate h)))
              (forOf (jobBody taskProxy))
       else (\<lambda>s. (Inr (), s)))))"

definition populateBody :: "jsval \<Rightarrow> unit run" where
  "populateBody workflow =
     bindS (updH (\<lambda>h. createWorkflowNode h workflow)) (\<lambda>rootNode.
     bindS (callT setWorkflow rootNode) (\<lambda>_.
     bindS (readH (\<lambda>h. bindE (getProp h workflow ''cyclePoints'') (iterate h))) (\<lambda>cps.
     bindS (forOf cyclePointBody cps) (\<lambda>_.
     bindS (readH (\<lambda>h. bindE (getProp h workflow ''familyProxies'') (iterate h))) (\<lambda>fps.
     bindS (forOf familyProxyBody fps) (\<lambda>_.
     bindS (readH (\<lambda>h. bindE (getProp h workflow ''taskProxies'') (iterate h)))
       (forOf taskProxyBody)))))))"

definition invalid_data :: js_error where
  "invalid_data = Error ''You must provide valid data to populate the tree!''"

text \<open>
  The \<^verbatim>\<open>tree\<close> argument is \<^verbatim>\<open>null\<close> (\<open>None\<close>) or a Tree Store. The result is
  the outcome together with the Tree Store and the heap as the call leaves them.
\<close>

definition populateTreeFromGraphQLData ::
  "CylcTree option \<Rightarrow> jsval \<Rightarrow> heap \<Rightarrow> (js_error + unit) \<times> CylcTree option \<times> heap" where
  "populateTreeFromGraphQLData tree workflow h =
     (case tree of
        None \<Rightarrow> (Inl invalid_data, None, h)
      | Some t \<Rightarrow>
          if \<not> truthy workflow then (Inl invalid_data, Some t, h)
          else (case containsTreeData h workflow of
                  Inl e \<Rightarrow> (Inl e, Some t, h)
                | Inr ok \<Rightarrow>
                    if \<not> truthy ok then (Inl invalid_data, Some t, h)
                    else (case populateBody workflow (t, h) of
                            (r, t', h') \<Rightarrow> (r, Some t', h'))))"

section \<open>Example data\<close>

text \<open>
  The workflow
  \<^verbatim>\<open>{id:'w1', cyclePoints:[{cyclePoint:'2024'}], familyProxies:[{id:'f1'}],
    taskProxies:[{id:'t1', jobs:[{id:'j1'}]}]}\<close>
  laid out on a heap; the workflow record is at address 0.
\<close>

definition example_heap :: heap where
  "example_heap =
     [\<lparr>props = [(''id'', JStr ''w1''), (''cyclePoints'', JRef 1),
                (''familyProxies'', JRef 3), (''taskProxies'', JRef 5)], elems = None\<rparr>,
      \<lparr>props = [], elems = Some [JRef 2]\<rparr>,
      \<lparr>props = [(''cyclePoint'', JStr ''2024'')], elems = None\<rparr>,
      \<lparr>props = [], elems = Some [JRef 4]\<rparr>,
      \<lparr>props = [(''id'', JStr ''f1'')], elems = None\<rparr>,
      \<lparr>props = [], elems = Some [JRef 6]\<rparr>,
      \<lparr>props = [(''id'', JStr ''t1''), (''jobs'', JRef 7)], elems = None\<rparr>,
      \<lparr>props = [], elems = Some [JRef 8]\<rparr>,
      \<lparr>props = [(''id'', JStr ''j1'')], elems = None\<rparr>]"

text \<open>A workflow the validator accepts whose only cycle point is \<^verbatim>\<open>null\<close>.\<close>

definition null_cycle_heap :: heap where
  "null_cycle_heap =
     [\<lparr>props = [(''id'', JStr ''w1''), (''cyclePoints'', JRef 1),
                (''familyProxies'', JRef 2), (''taskProxies'', JRef 3)], elems = None\<rparr>,
      \<lparr>props = [], elems = Some [JNull]\<rparr>,
      \<lparr>props = [], elems = Some []\<rparr>,
      \<lparr>props = [], elems = Some []\<rparr>]"

text \<open>What the factories build from the records of the example.\<close>

definition example_workflow_node :: tnode where
  "example_workflow_node = TNode (JStr ''w1'') ''workflow'' (JRef 0) [] None None None"

definition example_cyclepoint_node :: tnode where
  "example_cyclepoint_node =
     TNode (JStr ''2024'') ''cyclepoint'' (JRef 9) [] (Some 32) (Some True) None"

definition example_family_node :: tnode where
  "example_family_node =
     TNode (JStr ''f1'') ''family-proxy'' (JRef 4) [] (Some 32) (Some True) None"

definition example_task_node :: tnode where
  "example_task_node =
     TNode (JStr ''t1'') ''task-proxy'' (JRef 6) [] (Some 32) (Some False) None"

definition example_job_node :: "jsval \<Rightarrow> tnode" where
  "example_job_node msg =
     TNode (JStr ''j1'') ''job'' (JRef 8)
       [TNode (JStr ''j1-details'') ''job-details'' (JRef 8) [] (Some 224) (Some False) None]
       (Some 32) (Some False) (Some msg)"

text \<open>The example heap with the object the cycle-point factory allocates.\<close>

definition example_heap_cyclepoint :: heap where
  "example_heap_cyclepoint =
     example_heap @ [\<lparr>props = [(''id'', JStr ''2024''), (''name'', JStr ''2024'')], elems = None\<rparr>]"

text \<open>The example heap with the state of the task proxy defaulted.\<close>

definition example_heap_defaulted :: heap where
  "example_heap_defaulted =
     example_heap[6 := \<lparr>props = [(''id'', JStr ''t1''), (''jobs'', JRef 7), (''state'', JStr '''')],
                         elems = None\<rparr>]"

text \<open>A workflow record without the field \<^verbatim>\<open>familyProxies\<close>.\<close>

definition no_family_heap :: heap where
  "no_family_heap =
     [\<lparr>props = [(''id'', JStr ''w1''), (''cyclePoints'', JRef 1), (''taskProxies'', JRef 2)],
       elems = None\<rparr>,
      \<lparr>props = [], elems = Some []\<rparr>,
      \<lparr>props = [], elems = Some []\<rparr>]"

text \<open>The example heap and Tree Store after the routine has run.\<close>

definition example_heap_final :: heap where
  "example_heap_final =
     example_heap_defaulted @
       [\<lparr>props = [(''id'', JStr ''2024''), (''name'', JStr ''2024'')], elems = None\<rparr>]"

definition example_calls :: CylcTree where
  "example_calls =
     [SetWorkflow example_workflow_node,
      AddCyclePoint example_cyclepoint_node,
      AddFamilyProxy example_family_node,
      AddTaskProxy example_task_node,
      AddJob (example_job_node (JStr ''''))]"

text \<open>
  A workflow the validator accepts whose only cycle point is \<^verbatim>\<open>null\<close> and whose only
  task proxy, at address 4, has no \<^verbatim>\<open>state\<close>.
\<close>

definition null_cycle_task_heap :: heap where
  "null_cycle_task_heap =
     [\<lparr>props = [(''id'', JStr ''w1''), (''cyclePoints'', JRef 1),
                (''familyProxies'', JRef 2), (''taskProxies'', JRef 3)], elems = None\<rparr>,
      \<lparr>props = [], elems = Some [JNull]\<rparr>,
      \<lparr>props = [], elems = Some []\<rparr>,
      \<lparr>props = [], elems = Some [JRef 4]\<rparr>,
      \<lparr>props = [(''id'', JStr ''t1'')], elems = None\<rparr>]"

text \<open>
  The example with a \<^verbatim>\<open>latestMessage\<close> on the task proxy, and the job node built
  from it.
\<close>

definition message_heap :: heap where
  "message_heap =
     example_heap[6 := \<lparr>props = [(''id'', JStr ''t1''), (''jobs'', JRef 7),
                                  (''latestMessage'', JStr ''started'')], elems = None\<rparr>]"

section \<open>Predicates used in the statements\<close>

text \<open>
  The validator as the specification words it: the record is neither null nor
  undefined and each of the three fields is present and holds an array.
\<close>

definition has_array_field :: "heap \<Rightarrow> jsval \<Rightarrow> string \<Rightarrow> bool" where
  "has_array_field h w k =
     (case w of
        JRef a \<Rightarrow>
          (case lookup_obj h a of
             None \<Rightarrow> False
           | Some ob \<Rightarrow> (case map_of (props ob) k of None \<Rightarrow> False | Some v \<Rightarrow> isArray h v))
      | _ \<Rightarrow> False)"

definition spec_containsTreeData :: "heap \<Rightarrow> jsval \<Rightarrow> bool" where
  "spec_containsTreeData h w =
     (w \<noteq> JNull \<and> w \<noteq> JUndefined \<and> has_array_field h w ''cyclePoints'' \<and>
      has_array_field h w ''familyProxies'' \<and> has_array_field h w ''taskProxies'')"

text \<open>
  Two heaps of the same shape hold, address by address, objects with the same
  properties that are arrays in the one exactly when they are in the other; the elements
  of the arrays may differ.
\<close>

definition same_shape :: "heap \<Rightarrow> heap \<Rightarrow> bool" where
  "same_shape h h' =
     list_all2 (\<lambda>ob ob'. props ob' = props ob \<and> (elems ob' = None) = (elems ob = None)) h h'"

text \<open>
  What the Tree Store observes of a call: the operation called and the id of the node
  passed; and the ids of a node and of all nodes below it.
\<close>

fun call_name :: "tree_call \<Rightarrow> string" where
  "call_name (SetWorkflow n) = ''setWorkflow''"
| "call_name (AddCyclePoint n) = ''addCyclePoint''"
| "call_name (AddFamilyProxy n) = ''addFamilyProxy''"
| "call_name (AddTaskProxy n) = ''addTaskProxy''"
| "call_name (AddJob n) = ''addJob''"

fun call_node :: "tree_call \<Rightarrow> tnode" where
  "call_node (SetWorkflow n) = n"
| "call_node (AddCyclePoint n) = n"
| "call_node (AddFamilyProxy n) = n"
| "call_node (AddTaskProxy n) = n"
| "call_node (AddJob n) = n"

definition call_sig :: "tree_call \<Rightarrow> string \<times> jsval" where
  "call_sig c = (call_name c, nid (call_node c))"

fun node_ids :: "tnode \<Rightarrow> jsval list" where
  "node_ids (TNode i ty nd ch sz st lm) = i # concat (map node_ids ch)"

definition call_ids :: "tree_call \<Rightarrow> string \<times> jsval list" where
  "call_ids c = (call_name c, node_ids (call_node c))"

text \<open>
  The value of a field of a record (undefined when the field is absent), the elements
  of the array a value refers to, and the jobs the routine visits for a task proxy.
\<close>

definition field :: "heap \<Rightarrow> jsval \<Rightarrow> string \<Rightarrow> jsval" where
  "field h v k = (case getProp h v k of Inl e \<Rightarrow> JUndefined | Inr x \<Rightarrow> x)"

definition elements :: "heap \<Rightarrow> jsval \<Rightarrow> jsval list" where
  "elements h v = (case iterate h v of Inl e \<Rightarrow> [] | Inr xs \<Rightarrow> xs)"

definition jobs_of :: "heap \<Rightarrow> jsval \<Rightarrow> jsval list" where
  "jobs_of h taskProxy =
     (if truthy (field h taskProxy ''jobs'') then elements h (field h taskProxy ''jobs'') else [])"

text \<open>
  The calls the specification expects for a workflow record, in its order: the
  workflow, the cycle points, the family proxies, then each task proxy followed by its
  jobs.
\<close>

definition expected_calls :: "heap \<Rightarrow> jsval \<Rightarrow> (string \<times> jsval) list" where
  "expected_calls h workflow =
     (''setWorkflow'', field h workflow ''id'') #
     map (\<lambda>cp. (''addCyclePoint'', field h cp ''cyclePoint''))
       (elements h (field h workflow ''cyclePoints'')) @
     map (\<lambda>fp. (''addFamilyProxy'', field h fp ''id''))
       (elements h (field h workflow ''familyProxies'')) @
     concat (map (\<lambda>tp. (''addTaskProxy'', field h tp ''id'') #
                        map (\<lambda>j. (''addJob'', field h j ''id'')) (jobs_of h tp))
       (elements h (field h workflow ''taskProxies'')))"

text \<open>
  The records the factories can take: a record is a value other than null and
  undefined that, if it is a reference, refers to an object of the heap; a task proxy
  must be an object, and its \<^verbatim>\<open>jobs\<close>, if truthy, must be iterable over records.
\<close>

definition is_record :: "heap \<Rightarrow> jsval \<Rightarrow> bool" where
  "is_record h v \<longleftrightarrow> v \<noteq> JUndefined \<and> v \<noteq> JNull \<and> (case v of JRef a \<Rightarrow> a < length h | _ \<Rightarrow> True)"

definition is_task_record :: "heap \<Rightarrow> jsval \<Rightarrow> bool" where
  "is_task_record h v \<longleftrightarrow>
     (case v of JRef a \<Rightarrow> a < length h | _ \<Rightarrow> False) \<and>
     (truthy (field h v ''jobs'') \<longrightarrow>
        (case iterate h (field h v ''jobs'') of
           Inl e \<Rightarrow> False
         | Inr js \<Rightarrow> list_all (is_record h) js))"

definition well_formed :: "heap \<Rightarrow> jsval \<Rightarrow> bool" where
  "well_formed h workflow \<longleftrightarrow>
     list_all (is_record h) (elements h (field h workflow ''cyclePoints'')) \<and>
     list_all (is_record h) (elements h (field h workflow ''familyProxies'')) \<and>
     list_all (is_task_record h) (elements h (field h workflow ''taskProxies''))"

text \<open>
  What the Tree Store observes of a call when the message of the node is looked at as
  well, and the calls expected then: a job node carries the \<^verbatim>\<open>latestMessage\<close> of the
  task proxy that owns the job, or the empty string if that has none; the other nodes
  carry no message.
\<close>

definition default_message :: "jsval \<Rightarrow> jsval" where
  "default_message m = (if m = JUndefined then JStr '''' else m)"

definition call_message :: "tree_call \<Rightarrow> string \<times> jsval \<times> jsval option" where
  "call_message c = (call_name c, nid (call_node c), nlatestMessage (call_node c))"

definition expected_messages :: "heap \<Rightarrow> jsval \<Rightarrow> (string \<times> jsval \<times> jsval option) list" where
  "expected_messages h workflow =
     (''setWorkflow'', field h workflow ''id'', None) #
     map (\<lambda>cp. (''addCyclePoint'', field h cp ''cyclePoint'', None))
       (elements h (field h workflow ''cyclePoints'')) @
     map (\<lambda>fp. (''addFamilyProxy'', field h fp ''id'', None))
       (elements h (field h workflow ''familyProxies'')) @
     concat (map (\<lambda>tp. (''addTaskProxy'', field h tp ''id'', None) #
                        map (\<lambda>j. (''addJob'', field h j ''id'',
                                   Some (default_message (field h tp ''latestMessage''))))
                          (jobs_of h tp))
       (elements h (field h workflow ''taskProxies'')))"

section \<open>Relations between heaps used in the proofs\<close>

text \<open>The value a record's \<^verbatim>\<open>state\<close> reads as.\<close>

definition state_of :: "jsobj \<Rightarrow> jsval" where
  "state_of ob = (case map_of (props ob) ''state'' of None \<Rightarrow> JUndefined | Some v \<Rightarrow> v)"

text \<open>
  Two objects agree up to a defaulted state when they have the same elements and the
  same fields other than \<^verbatim>\<open>state\<close>, and their states are equal or both falsy.
\<close>

definition sim_obj :: "jsobj \<Rightarrow> jsobj \<Rightarrow> bool" where
  "sim_obj ob ob' \<longleftrightarrow>
     elems ob' = elems ob \<and>
     (\<forall>k. k \<noteq> ''state'' \<longrightarrow> map_of (props ob') k = map_of (props ob) k) \<and>
     (truthy (state_of ob) \<or> truthy (state_of ob') \<longrightarrow> state_of ob' = state_of ob)"

text \<open>Two heaps agree in this way on their first \<open>n\<close> objects.\<close>

definition sim :: "nat \<Rightarrow> heap \<Rightarrow> heap \<Rightarrow> bool" where
  "sim n h h' \<longleftrightarrow> n \<le> length h \<and> n \<le> length h' \<and> (\<forall>a<n. sim_obj (h ! a) (h' ! a))"

text \<open>A value is a primitive or refers to one of the first \<open>n\<close> objects.\<close>

definition val_ok :: "nat \<Rightarrow> jsval \<Rightarrow> bool" where
  "val_ok n v = (case v of JRef a \<Rightarrow> a < n | _ \<Rightarrow> True)"

definition obj_ok :: "nat \<Rightarrow> jsobj \<Rightarrow> bool" where
  "obj_ok n ob \<longleftrightarrow>
     list_all (\<lambda>kv. val_ok n (snd kv)) (props ob) \<and>
     (case elems ob of None \<Rightarrow> True | Some xs \<Rightarrow> list_all (val_ok n) xs)"

text \<open>
  A heap is closed when every reference stored in one of its objects refers to an
  object of the heap, as is the case for every JavaScript heap.
\<close>

definition closed_heap :: "heap \<Rightarrow> bool" where
  "closed_heap h = list_all (obj_ok (length h)) h"

text \<open>
  The first \<open>n\<close> objects of a heap refer, in the fields and elements that can be read,
  only to objects among them.
\<close>

definition closed_upto :: "nat \<Rightarrow> heap \<Rightarrow> bool" where
  "closed_upto n h \<longleftrightarrow>
     n \<le> length h \<and>
     (\<forall>a<n. (\<forall>k v. map_of (props (h ! a)) k = Some v \<longrightarrow> val_ok n v) \<and>
            (\<forall>xs. elems (h ! a) = Some xs \<longrightarrow> list_all (val_ok n) xs))"

text \<open>The heap after the state of the object at \<open>a\<close> has been defaulted.\<close>

definition default_state :: "heap \<Rightarrow> nat \<Rightarrow> heap" where
  "default_state h a =
     (if a < length h \<and> \<not> truthy (state_of (h ! a))
      then h[a := (h ! a)\<lparr>props := AList.update ''state'' (JStr '''') (props (h ! a))\<rparr>]
      else h)"

text \<open>
  Two outcomes of a statement, run from Tree Stores \<open>tA\<close> and \<open>tB\<close>, correspond: they
  complete or throw alike, the heaps they leave are related, and the calls they
  added have the same names and ids.
\<close>

definition run_rel ::
  "(heap \<Rightarrow> heap \<Rightarrow> bool) \<Rightarrow> CylcTree \<Rightarrow> CylcTree \<Rightarrow>
   (js_error + unit) \<times> world \<Rightarrow> (js_error + unit) \<times> world \<Rightarrow> bool" where
  "run_rel R tA tB resA resB \<longleftrightarrow>
     fst resA = fst resB \<and> R (snd (snd resA)) (snd (snd resB)) \<and>
     (\<exists>csA csB. fst (snd resA) = tA @ csA \<and> fst (snd resB) = tB @ csB \<and>
        map call_ids csA = map call_ids csB)"

definition heap_rel :: "nat \<Rightarrow> heap \<Rightarrow> heap \<Rightarrow> bool" where
  "heap_rel n hA hB \<longleftrightarrow> sim n hA hB \<and> closed_upto n hA \<and> closed_upto n hB"

section \<open>Basic facts about the JavaScript operations\<close>

lemma bindE_simps [simp]:
  "bindE (Inl e) f = Inl e"
  "bindE (Inr v) f = f v"
  by (simp_all add: bindE_def)

lemma js_and_simps [simp]:
  "truthy a \<Longrightarrow> js_and a b = b"
  "\<not> truthy a \<Longrightarrow> js_and a b = Inr a"
  by (simp_all add: js_and_def)

lemma isArray_truthy: "isArray h v \<Longrightarrow> truthy v"
  by (cases v) simp_all

lemma getProp_field:
  "has_array_field h w k = (\<exists>v. getProp h w k = Inr v \<and> isArray h v)"
  by (cases w) (auto simp: has_array_field_def split: option.splits)

lemma getProp_total: "w \<noteq> JUndefined \<Longrightarrow> w \<noteq> JNull \<Longrightarrow> \<exists>v. getProp h w k = Inr v"
  by (cases w) (auto split: option.splits)

lemma containsTreeData_cases:
  "containsTreeData h w = Inr (JBool True) \<and> spec_containsTreeData h w \<or>
   (\<exists>v. containsTreeData h w = Inr v \<and> \<not> truthy v) \<and> \<not> spec_containsTreeData h w"
proof (cases "w = JUndefined \<or> w = JNull")
  case True
  then show ?thesis
    by (auto simp: containsTreeData_def spec_containsTreeData_def)
next
  case False
  then obtain c f t where r: "getProp h w ''cyclePoints'' = Inr c"
    "getProp h w ''familyProxies'' = Inr f" "getProp h w ''taskProxies'' = Inr t"
    using getProp_total by metis
  show ?thesis
  proof (cases "isArray h c \<and> isArray h f \<and> isArray h t")
    case True
    then have "truthy c" "truthy f" "truthy t"
      by (auto intro: isArray_truthy)
    with True False r show ?thesis
      by (simp add: containsTreeData_def spec_containsTreeData_def getProp_field)
  next
    case nar: False
    with False r show ?thesis
      by (cases "truthy c"; cases "truthy f"; cases "truthy t"; cases "isArray h c"; cases "isArray h f")
         (auto simp: containsTreeData_def spec_containsTreeData_def getProp_field)
  qed
qed

lemma same_shapeD:
  assumes "same_shape h h'"
  shows "length h' = length h"
    and "a < length h \<Longrightarrow> props (h' ! a) = props (h ! a)"
    and "a < length h \<Longrightarrow> (elems (h' ! a) = None) = (elems (h ! a) = None)"
  using assms by (simp_all add: same_shape_def list_all2_conv_all_nth)

lemma getProp_same_shape: "same_shape h h' \<Longrightarrow> getProp h' w k = getProp h w k"
  by (cases w) (simp_all add: lookup_obj_def same_shapeD)

lemma isArray_same_shape: "same_shape h h' \<Longrightarrow> isArray h' v = isArray h v"
  by (cases v) (simp_all add: lookup_obj_def same_shapeD)

lemma containsTreeData_same_shape:
  "same_shape h h' \<Longrightarrow> containsTreeData h' w = containsTreeData h w"
  by (simp add: containsTreeData_def getProp_same_shape isArray_same_shape)

section \<open>What each factory returns\<close>

lemma getProp_JRef:
  "a < length h \<Longrightarrow>
   getProp h (JRef a) k = Inr (case map_of (props (h ! a)) k of None \<Rightarrow> JUndefined | Some v \<Rightarrow> v)"
  by (simp add: lookup_obj_def split: option.splits)

lemma getProp_Inl: "getProp h r k = Inl e \<longleftrightarrow> (r = JUndefined \<or> r = JNull) \<and> e = TypeError"
  by (cases r) (auto split: option.splits)

lemma createWorkflowNode_Inr:
  "createWorkflowNode h r = Inr (n, h') \<longleftrightarrow>
   (\<exists>i. getProp h r ''id'' = Inr i \<and> n = TNode i ''workflow'' r [] None None None \<and> h' = h)"
  by (cases "getProp h r ''id''") (auto simp: createWorkflowNode_def)

lemma createFamilyProxyNode_Inr:
  "createFamilyProxyNode h r = Inr (n, h') \<longleftrightarrow>
   (\<exists>i. getProp h r ''id'' = Inr i \<and>
        n = TNode i ''family-proxy'' r [] (Some TREE_ITEM_SIZE) (Some True) None \<and> h' = h)"
  by (cases "getProp h r ''id''") (auto simp: createFamilyProxyNode_def)

lemma createCyclePointNode_Inr:
  "createCyclePointNode h r = Inr (n, h') \<longleftrightarrow>
   (\<exists>c. getProp h r ''cyclePoint'' = Inr c \<and>
        n = TNode c ''cyclepoint'' (JRef (length h)) [] (Some TREE_ITEM_SIZE) (Some True) None \<and>
        h' = h @ [\<lparr>props = [(''id'', c), (''name'', c)], elems = None\<rparr>])"
  by (cases "getProp h r ''cyclePoint''") (auto simp: createCyclePointNode_def)

lemma createJobNode_Inr:
  "createJobNode h r lm = Inr (n, h') \<longleftrightarrow>
   (\<exists>i. getProp h r ''id'' = Inr i \<and>
        n = TNode i ''job'' r
              [TNode (JStr (toStringJS h i @ ''-details'')) ''job-details'' r []
                 (Some (TREE_ITEM_SIZE * length JOB_DETAIL_NODE_PROPERTIES)) (Some False) None]
              (Some TREE_ITEM_SIZE) (Some False)
              (Some (if lm = JUndefined then JStr '''' else lm)) \<and>
        h' = h)"
  by (cases "getProp h r ''id''") (auto simp: createJobNode_def Let_def)

lemma createTaskProxyNode_Inr:
  "createTaskProxyNode h r = Inr (n, h') \<longleftrightarrow>
   (\<exists>a st i. r = JRef a \<and> getProp h r ''state'' = Inr st \<and>
      h' = (if \<not> truthy st \<and> a < length h
            then h[a := (h ! a)\<lparr>props := AList.update ''state'' (JStr '''') (props (h ! a))\<rparr>]
            else h) \<and>
      getProp h' r ''id'' = Inr i \<and>
      n = TNode i ''task-proxy'' r [] (Some TREE_ITEM_SIZE) (Some False) None)"
proof (cases r)
  case (JRef a)
  obtain st where st: "getProp h (JRef a) ''state'' = Inr st"
    using getProp_total [of "JRef a"] by auto
  obtain i where i: "getProp (h[a := (h ! a)\<lparr>props := AList.update ''state'' (JStr '''') (props (h ! a))\<rparr>]) (JRef a) ''id'' = Inr i"
    using getProp_total [of "JRef a"] by auto
  obtain j where j: "getProp h (JRef a) ''id'' = Inr j"
    using getProp_total [of "JRef a"] by auto
  show ?thesis
    unfolding JRef createTaskProxyNode_def st
    using i j st by (cases "truthy st"; cases "a < length h") auto
qed (auto simp: createTaskProxyNode_def)

section \<open>Running statements\<close>

lemma bindS_simps [simp]:
  "m s = (Inl e, s') \<Longrightarrow> bindS m f s = (Inl e, s')"
  "m s = (Inr v, s') \<Longrightarrow> bindS m f s = f v s'"
  by (simp_all add: bindS_def)

lemma readH_simp [simp]: "readH f (t, h) = (f h, (t, h))"
  by (simp add: readH_def)

lemma updH_simps [simp]:
  "f h = Inl e \<Longrightarrow> updH f (t, h) = (Inl e, (t, h))"
  "f h = Inr (v, h') \<Longrightarrow> updH f (t, h) = (Inr v, (t, h'))"
  by (simp_all add: updH_def)

lemma callT_simp [simp]: "callT insert_op n (t, h) = (Inr (), (insert_op t n, h))"
  by (simp add: callT_def)

lemma jobBody_cases:
  "jobBody tp job (t, h) =
     (case getProp h tp ''latestMessage'' of
        Inl e \<Rightarrow> (Inl e, (t, h))
      | Inr lm \<Rightarrow>
          (case createJobNode h job lm of
             Inl e \<Rightarrow> (Inl e, (t, h))
           | Inr (n, h') \<Rightarrow> (Inr (), (t @ [AddJob n], h'))))"
  by (auto simp: jobBody_def addJob_def split: sum.splits)

section \<open>The factories on the example\<close>

lemma example_createWorkflowNode:
  "createWorkflowNode example_heap (JRef 0) = Inr (example_workflow_node, example_heap)"
  by (simp add: createWorkflowNode_def example_heap_def lookup_obj_def example_workflow_node_def)

lemma example_createCyclePointNode:
  "createCyclePointNode example_heap (JRef 2) =
     Inr (example_cyclepoint_node, example_heap_cyclepoint)"
  by (simp add: createCyclePointNode_def example_heap_def lookup_obj_def TREE_ITEM_SIZE_def
      example_cyclepoint_node_def example_heap_cyclepoint_def)

lemma example_createFamilyProxyNode:
  "createFamilyProxyNode example_heap (JRef 4) = Inr (example_family_node, example_heap)"
  by (simp add: createFamilyProxyNode_def example_heap_def lookup_obj_def TREE_ITEM_SIZE_def
      example_family_node_def)

lemma example_createTaskProxyNode:
  "createTaskProxyNode example_heap (JRef 6) = Inr (example_task_node, example_heap_defaulted)"
  by (simp add: createTaskProxyNode_def example_heap_def lookup_obj_def TREE_ITEM_SIZE_def
      example_task_node_def example_heap_defaulted_def)

lemma example_createJobNode:
  "msg \<noteq> JUndefined \<Longrightarrow>
   createJobNode example_heap (JRef 8) msg = Inr (example_job_node msg, example_heap)"
  by (simp add: createJobNode_def example_heap_def lookup_obj_def TREE_ITEM_SIZE_def
      JOB_DETAIL_NODE_PROPERTIES_def example_job_node_def toStringJS_def)

lemma example_createJobNode_default:
  "createJobNode example_heap (JRef 8) JUndefined = Inr (example_job_node (JStr []), example_heap)"
  by (simp add: createJobNode_def example_heap_def lookup_obj_def TREE_ITEM_SIZE_def
      JOB_DETAIL_NODE_PROPERTIES_def example_job_node_def toStringJS_def)

subsection \<open>Printing of ids\<close>

lemma example_toStringJS_array:
  "toStringJS [\<lparr>props = [], elems = Some [JStr ''1'', JStr ''2'']\<rparr>] (JRef 0) = ''1,2''"
  "toStringJS [\<lparr>props = [], elems = Some [JNull, JRef 0, JStr ''a'']\<rparr>] (JRef 0) = '',,a''"
  "toStringJS [\<lparr>props = [(''id'', JStr ''x'')], elems = None\<rparr>] (JRef 0) = ''[object Object]''"
  by code_simp+

lemma bit_length_21: "bit_length 1000000000000000000000 = 70"
  by (simp add: bit_length.simps)

lemma round_double_21: "round_double 1000000000000000000000 = 1000000000000000000000"
  by (simp add: round_double_def bit_length_21 Let_def)

lemma dec_nat_21: "dec_nat 1000000000000000000000 = ''1000000000000000000000''"
  by (simp add: dec_nat.simps)

lemma shortest_at_21: "shortest_at 1000000000000000000000 1 = Some 1000000000000000000000"
  by (simp add: shortest_at_def dec_nat_21 round_double_21 Let_def round_double_def
      bit_length.simps)

lemma shortest_from_21: "shortest_from 1000000000000000000000 1 22 = 1000000000000000000000"
proof -
  have e: "(22::nat) = Suc 21"
    by simp
  show ?thesis
    unfolding e by (simp only: shortest_from.simps shortest_at_21 option.case)
qed

lemma number_string_21: "number_string 1000000000000000000000 = ''1e+21''"
proof -
  have big: "\<not> (2::nat) ^ 1024 \<le> 1000000000000000000000"
    by simp
  have e: "dec_nat 21 = ''21''"
    by (simp add: dec_nat.simps)
  have d: "length ''1000000000000000000000'' = 22"
    by simp
  show ?thesis
    unfolding number_string_def Let_def round_double_21 dec_nat_21 d shortest_from_21
    using big e by (simp add: strip_zeros_def)
qed

lemma example_toStringJS_number: "toStringJS h (JNum 1000000000000000000000) = ''1e+21''"
  by (simp add: toStringJS_def number_string_21)

lemma example_populate:
  "populateTreeFromGraphQLData (Some []) (JRef 0) example_heap =
     (Inr (), Some example_calls, example_heap_final)"
  by code_simp

lemma example_populate_again:
  "populateTreeFromGraphQLData (Some []) (JRef 0) example_heap_final =
     (Inr (),
      Some [SetWorkflow example_workflow_node,
            AddCyclePoint (TNode (JStr ''2024'') ''cyclepoint'' (JRef 10) [] (Some 32) (Some True) None),
            AddFamilyProxy example_family_node,
            AddTaskProxy example_task_node,
            AddJob (example_job_node (JStr ''''))],
      example_heap_final @
        [\<lparr>props = [(''id'', JStr ''2024''), (''name'', JStr ''2024'')], elems = None\<rparr>])"
  by code_simp

lemma example_null_cycle:
  "populateTreeFromGraphQLData (Some []) (JRef 0) null_cycle_heap =
     (Inl TypeError, Some [SetWorkflow example_workflow_node], null_cycle_heap)"
  by code_simp

section \<open>Invalid input (claim C2)\<close>

text \<open>
  Claim C2. When the tree is null, or the workflow is null, or the workflow does not
  pass \<open>containsTreeData\<close>, \<open>populateTreeFromGraphQLData\<close> raises the one
  validation error and leaves the Tree Store exactly as it was: no insertion is
  logged. The heap is unchanged as well.
\<close>

theorem populate_invalid_input:
  assumes "tree = None \<or> workflow = JNull \<or> containsTreeData h workflow \<noteq> Inr (JBool True)"
  shows "populateTreeFromGraphQLData tree workflow h =
           (Inl (Error ''You must provide valid data to populate the tree!''), tree, h)"
proof (cases tree)
  case None
  then show ?thesis
    by (simp add: populateTreeFromGraphQLData_def invalid_data_def)
next
  case (Some t)
  show ?thesis
  proof (cases "truthy workflow")
    case False
    with Some show ?thesis
      by (simp add: populateTreeFromGraphQLData_def invalid_data_def)
  next
    case True
    with assms Some have "containsTreeData h workflow \<noteq> Inr (JBool True)"
      by auto
    with containsTreeData_cases [of h workflow]
    obtain v where "containsTreeData h workflow = Inr v" "\<not> truthy v"
      by auto
    with Some True show ?thesis
      by (simp add: populateTreeFromGraphQLData_def invalid_data_def)
  qed
qed

theorem populate_invalid_input_witness:
  "populateTreeFromGraphQLData None (JRef 0) example_heap =
     (Inl (Error ''You must provide valid data to populate the tree!''), None, example_heap) \<and>
   populateTreeFromGraphQLData (Some [SetWorkflow example_workflow_node]) JNull example_heap =
     (Inl (Error ''You must provide valid data to populate the tree!''),
      Some [SetWorkflow example_workflow_node], example_heap) \<and>
   containsTreeData no_family_heap (JRef 0) \<noteq> Inr (JBool True) \<and>
   populateTreeFromGraphQLData (Some []) (JRef 0) no_family_heap =
     (Inl (Error ''You must provide valid data to populate the tree!''), Some [], no_family_heap)"
proof -
  have nf: "containsTreeData no_family_heap (JRef 0) \<noteq> Inr (JBool True)"
    by (simp add: containsTreeData_def no_family_heap_def lookup_obj_def)
  from populate_invalid_input [of None "JRef 0" example_heap]
    populate_invalid_input [of "Some [SetWorkflow example_workflow_node]" JNull example_heap]
    populate_invalid_input [of "Some []" "JRef 0" no_family_heap] nf
  show ?thesis
    by simp
qed

section \<open>The validator (claim C3)\<close>

text \<open>
  Claim C3. \<open>containsTreeData\<close> returns \<^verbatim>\<open>true\<close> exactly when its argument is neither
  null nor undefined and its fields \<^verbatim>\<open>cyclePoints\<close>, \<^verbatim>\<open>familyProxies\<close> and
  \<^verbatim>\<open>taskProxies\<close> are present and are arrays, empty or not. It never throws. It has
  no effect on the heap (it returns no new heap), and its result does not depend on
  what the arrays contain: on a heap of the same shape it returns the same value.
\<close>

theorem containsTreeData_iff_spec:
  "(containsTreeData h w = Inr (JBool True)) = spec_containsTreeData h w \<and>
   (\<exists>v. containsTreeData h w = Inr v) \<and>
   (same_shape h h' \<longrightarrow> containsTreeData h' w = containsTreeData h w)"
  using containsTreeData_cases [of h w] containsTreeData_same_shape [of h h' w]
  by auto

theorem containsTreeData_iff_spec_witness:
  "spec_containsTreeData example_heap (JRef 0) \<and>
   same_shape example_heap (example_heap[1 := \<lparr>props = [], elems = Some [JNull, JNum 7]\<rparr>]) \<and>
   containsTreeData (example_heap[1 := \<lparr>props = [], elems = Some [JNull, JNum 7]\<rparr>]) (JRef 0)
     = Inr (JBool True)"
  using containsTreeData_iff_spec
    [of example_heap "JRef 0" "example_heap[1 := \<lparr>props = [], elems = Some [JNull, JNum 7]\<rparr>]"]
  by (simp add: spec_containsTreeData_def has_array_field_def example_heap_def lookup_obj_def
      same_shape_def)

section \<open>Sharing of the domain record (claim C4)\<close>

text \<open>
  Claim C4, as stated, says that the \<^verbatim>\<open>node\<close> field of every node a factory produces is
  the record the caller supplied. It fails for \<open>createCyclePointNode\<close>: on the example
  the cycle-point record is at address 2 and the \<^verbatim>\<open>node\<close> field of the node is the
  object newly allocated at address 9.
\<close>

theorem createCyclePointNode_sharing_counterexample:
  "createCyclePointNode example_heap (JRef 2) =
     Inr (example_cyclepoint_node, example_heap_cyclepoint) \<and>
   nnode example_cyclepoint_node \<noteq> JRef 2"
  using example_createCyclePointNode by (simp add: example_cyclepoint_node_def)

text \<open>
  Claim C4, amended. The \<^verbatim>\<open>node\<close> field of the node produced by
  \<open>createWorkflowNode\<close>, \<open>createFamilyProxyNode\<close>, \<open>createTaskProxyNode\<close> and
  \<open>createJobNode\<close> (and of the job-details child) is the very reference the caller
  supplied, so the node and the caller see the same object. The \<^verbatim>\<open>node\<close> field of the
  node produced by \<open>createCyclePointNode\<close> is a reference to an object that did not
  exist before the call and whose \<^verbatim>\<open>id\<close> and \<^verbatim>\<open>name\<close> both hold the record's
  cycle-point value.
\<close>

theorem factory_node_sharing:
  "(createWorkflowNode h rw = Inr (nw, hw) \<longrightarrow> nnode nw = rw) \<and>
   (createFamilyProxyNode h rf = Inr (nf, hf) \<longrightarrow> nnode nf = rf) \<and>
   (createTaskProxyNode h rt = Inr (nt, ht) \<longrightarrow> nnode nt = rt) \<and>
   (createJobNode h rj lm = Inr (nj, hj) \<longrightarrow> nnode nj = rj \<and> map nnode (nchildren nj) = [rj]) \<and>
   (createCyclePointNode h rc = Inr (nc, hc) \<longrightarrow>
      nnode nc = JRef (length h) \<and> lookup_obj h (length h) = None \<and>
      (\<exists>c. getProp h rc ''cyclePoint'' = Inr c \<and>
           lookup_obj hc (length h) = Some \<lparr>props = [(''id'', c), (''name'', c)], elems = None\<rparr>))"
  by (auto simp: createCyclePointNode_Inr createFamilyProxyNode_Inr createTaskProxyNode_Inr
      createJobNode_Inr createWorkflowNode_Inr lookup_obj_def)

theorem factory_node_sharing_witness:
  "createWorkflowNode example_heap (JRef 0) = Inr (example_workflow_node, example_heap) \<and>
   createFamilyProxyNode example_heap (JRef 4) = Inr (example_family_node, example_heap) \<and>
   createTaskProxyNode example_heap (JRef 6) = Inr (example_task_node, example_heap_defaulted) \<and>
   createJobNode example_heap (JRef 8) (JStr ''started'') =
     Inr (example_job_node (JStr ''started''), example_heap) \<and>
   createCyclePointNode example_heap (JRef 2) = Inr (example_cyclepoint_node, example_heap_cyclepoint) \<and>
   nnode example_workflow_node = JRef 0 \<and>
   nnode example_family_node = JRef 4 \<and>
   nnode example_task_node = JRef 6 \<and>
   nnode (example_job_node (JStr ''started'')) = JRef 8 \<and>
   map nnode (nchildren (example_job_node (JStr ''started''))) = [JRef 8] \<and>
   nnode example_cyclepoint_node = JRef (length example_heap) \<and>
   lookup_obj example_heap (length example_heap) = None \<and>
   lookup_obj example_heap_cyclepoint (length example_heap) =
     Some \<lparr>props = [(''id'', JStr ''2024''), (''name'', JStr ''2024'')], elems = None\<rparr>"
  using factory_node_sharing [of example_heap
      "JRef 0" example_workflow_node example_heap
      "JRef 4" example_family_node example_heap
      "JRef 6" example_task_node example_heap_defaulted
      "JRef 8" "JStr ''started''" "example_job_node (JStr ''started'')" example_heap
      "JRef 2" example_cyclepoint_node example_heap_cyclepoint]
    example_createCyclePointNode example_createFamilyProxyNode example_createTaskProxyNode
    example_createJobNode [of "JStr ''started''"] example_createWorkflowNode
  by (simp add: example_heap_def lookup_obj_def)

section \<open>Identifiers and default display state (claim C7)\<close>

lemma factories_total:
  assumes "r \<noteq> JUndefined" and "r \<noteq> JNull"
  shows "\<exists>n h'. createCyclePointNode h r = Inr (n, h')"
    and "\<exists>n h'. createFamilyProxyNode h r = Inr (n, h')"
    and "\<exists>n h'. createJobNode h r m = Inr (n, h')"
    and "\<exists>n h'. createWorkflowNode h r = Inr (n, h')"
proof -
  obtain c i where "getProp h r ''cyclePoint'' = Inr c" "getProp h r ''id'' = Inr i"
    using getProp_total [OF assms] by blast
  then show "\<exists>n h'. createCyclePointNode h r = Inr (n, h')"
    and "\<exists>n h'. createFamilyProxyNode h r = Inr (n, h')"
    and "\<exists>n h'. createJobNode h r m = Inr (n, h')"
    and "\<exists>n h'. createWorkflowNode h r = Inr (n, h')"
    by (simp_all add: createCyclePointNode_def createFamilyProxyNode_def createJobNode_def
        createWorkflowNode_def Let_def)
qed

lemma createTaskProxyNode_total: "\<exists>n h'. createTaskProxyNode h (JRef a) = Inr (n, h')"
proof -
  obtain st where st: "getProp h (JRef a) ''state'' = Inr st"
    using getProp_total [of "JRef a"] by blast
  let ?h' = "if \<not> truthy st \<and> a < length h
      then h[a := (h ! a)\<lparr>props := AList.update ''state'' (JStr []) (props (h ! a))\<rparr>]
      else h"
  obtain i where "getProp ?h' (JRef a) ''id'' = Inr i"
    using getProp_total [of "JRef a"] by blast
  with st have "createTaskProxyNode h (JRef a) =
      Inr (TNode i ''task-proxy'' (JRef a) [] (Some TREE_ITEM_SIZE) (Some False) None, ?h')"
    by (subst createTaskProxyNode_Inr) simp
  then show ?thesis
    by blast
qed

text \<open>
  Claim C7. The node created by \<open>createCyclePointNode\<close> has as id the record's
  cycle-point value and is open; the node created by \<open>createFamilyProxyNode\<close> is
  open; the nodes created by \<open>createTaskProxyNode\<close> and \<open>createJobNode\<close> are
  closed; the workflow node created by \<open>createWorkflowNode\<close> has neither a size nor a
  state. And each factory does create a node for every record: for every value other
  than null and undefined it is given (for \<open>createJobNode\<close>, a record whose id is not
  an object), and \<open>createTaskProxyNode\<close> for every object.
\<close>

theorem factory_defaults:
  "(createCyclePointNode h rc = Inr (nc, hc) \<longrightarrow>
      getProp h rc ''cyclePoint'' = Inr (nid nc) \<and> nstate_open nc = Some True) \<and>
   (createFamilyProxyNode h rf = Inr (nf, hf) \<longrightarrow> nstate_open nf = Some True) \<and>
   (createTaskProxyNode h rt = Inr (nt, ht) \<longrightarrow> nstate_open nt = Some False) \<and>
   (createJobNode h rj lm = Inr (nj, hj) \<longrightarrow> nstate_open nj = Some False) \<and>
   (createWorkflowNode h rw = Inr (nw, hw) \<longrightarrow> nsize nw = None \<and> nstate_open nw = None) \<and>
   (r \<noteq> JUndefined \<and> r \<noteq> JNull \<longrightarrow>
      (\<exists>n h'. createCyclePointNode h r = Inr (n, h') \<and>
         getProp h r ''cyclePoint'' = Inr (nid n) \<and> nstate_open n = Some True) \<and>
      (\<exists>n h'. createFamilyProxyNode h r = Inr (n, h') \<and> nstate_open n = Some True) \<and>
      (\<exists>n h'. createWorkflowNode h r = Inr (n, h') \<and> nsize n = None \<and> nstate_open n = None) \<and>
      ((\<forall>i b. getProp h r ''id'' = Inr i \<longrightarrow> i \<noteq> JRef b) \<longrightarrow>
         (\<exists>n h'. createJobNode h r m = Inr (n, h') \<and> nstate_open n = Some False))) \<and>
   (\<exists>n h'. createTaskProxyNode h (JRef a) = Inr (n, h') \<and> nstate_open n = Some False)"
proof -
  have guarded: "(createCyclePointNode h rc = Inr (nc, hc) \<longrightarrow>
      getProp h rc ''cyclePoint'' = Inr (nid nc) \<and> nstate_open nc = Some True) \<and>
   (createFamilyProxyNode h rf = Inr (nf, hf) \<longrightarrow> nstate_open nf = Some True) \<and>
   (createTaskProxyNode h rt = Inr (nt, ht) \<longrightarrow> nstate_open nt = Some False) \<and>
   (createJobNode h rj lm = Inr (nj, hj) \<longrightarrow> nstate_open nj = Some False) \<and>
   (createWorkflowNode h rw = Inr (nw, hw) \<longrightarrow> nsize nw = None \<and> nstate_open nw = None)"
    for rc nc hc rf nf hf rt nt ht rj lm nj hj rw nw hw
    by (auto simp: createCyclePointNode_Inr createFamilyProxyNode_Inr createTaskProxyNode_Inr
        createJobNode_Inr createWorkflowNode_Inr)
  have total: "(\<exists>n h'. createCyclePointNode h r = Inr (n, h') \<and>
         getProp h r ''cyclePoint'' = Inr (nid n) \<and> nstate_open n = Some True) \<and>
      (\<exists>n h'. createFamilyProxyNode h r = Inr (n, h') \<and> nstate_open n = Some True) \<and>
      (\<exists>n h'. createWorkflowNode h r = Inr (n, h') \<and> nsize n = None \<and> nstate_open n = None) \<and>
      (\<exists>n h'. createJobNode h r m = Inr (n, h') \<and> nstate_open n = Some False)"
    if "r \<noteq> JUndefined" "r \<noteq> JNull"
    using factories_total(1) [OF that, of h] factories_total(2) [OF that, of h] factories_total(3) [OF that, of h m] factories_total(4) [OF that, of h] guarded by metis
  have task: "\<exists>n h'. createTaskProxyNode h (JRef a) = Inr (n, h') \<and> nstate_open n = Some False"
    using createTaskProxyNode_total [of h a] guarded by metis
  from guarded total task show ?thesis
    by blast
qed

theorem factory_defaults_witness:
  "createCyclePointNode example_heap (JRef 2) = Inr (example_cyclepoint_node, example_heap_cyclepoint) \<and>
   createFamilyProxyNode example_heap (JRef 4) = Inr (example_family_node, example_heap) \<and>
   createTaskProxyNode example_heap (JRef 6) = Inr (example_task_node, example_heap_defaulted) \<and>
   createJobNode example_heap (JRef 8) (JStr ''started'') =
     Inr (example_job_node (JStr ''started''), example_heap) \<and>
   createWorkflowNode example_heap (JRef 0) = Inr (example_workflow_node, example_heap) \<and>
   getProp example_heap (JRef 2) ''cyclePoint'' = Inr (nid example_cyclepoint_node) \<and>
   nstate_open example_cyclepoint_node = Some True \<and>
   nstate_open example_family_node = Some True \<and>
   nstate_open example_task_node = Some False \<and>
   nstate_open (example_job_node (JStr ''started'')) = Some False \<and>
   nsize example_workflow_node = None \<and> nstate_open example_workflow_node = None \<and>
   JRef 8 \<noteq> JUndefined \<and> JRef 8 \<noteq> JNull \<and>
   getProp example_heap (JRef 8) ''id'' = Inr (JStr ''j1'') \<and>
   (\<exists>n h'. createCyclePointNode example_heap (JRef 8) = Inr (n, h') \<and>
      getProp example_heap (JRef 8) ''cyclePoint'' = Inr (nid n)) \<and>
   (\<exists>n h'. createJobNode example_heap (JRef 8) JUndefined = Inr (n, h') \<and>
      nstate_open n = Some False) \<and>
   (\<exists>n h'. createTaskProxyNode example_heap (JRef 6) = Inr (n, h') \<and> nstate_open n = Some False)"
proof -
  have i: "getProp example_heap (JRef 8) ''id'' = Inr (JStr ''j1'')"
    by code_simp
  note inst = factory_defaults [of example_heap
      "JRef 2" example_cyclepoint_node example_heap_cyclepoint
      "JRef 4" example_family_node example_heap
      "JRef 6" example_task_node example_heap_defaulted
      "JRef 8" "JStr ''started''" "example_job_node (JStr ''started'')" example_heap
      "JRef 0" example_workflow_node example_heap
      "JRef 8" JUndefined 6]
  note ex = example_createCyclePointNode example_createFamilyProxyNode
    example_createTaskProxyNode example_createJobNode [of "JStr ''started''"]
    example_createWorkflowNode
  from inst ex i have old: "getProp example_heap (JRef 2) ''cyclePoint'' = Inr (nid example_cyclepoint_node) \<and>
      nstate_open example_cyclepoint_node = Some True \<and>
      nstate_open example_family_node = Some True \<and>
      nstate_open example_task_node = Some False \<and>
      nstate_open (example_job_node (JStr ''started'')) = Some False \<and>
      nsize example_workflow_node = None \<and> nstate_open example_workflow_node = None"
    by simp
  from inst i have new: "(\<exists>n h'. createCyclePointNode example_heap (JRef 8) = Inr (n, h') \<and>
        getProp example_heap (JRef 8) ''cyclePoint'' = Inr (nid n)) \<and>
      (\<exists>n h'. createJobNode example_heap (JRef 8) JUndefined = Inr (n, h') \<and>
        nstate_open n = Some False) \<and>
      (\<exists>n h'. createTaskProxyNode example_heap (JRef 6) = Inr (n, h') \<and>
        nstate_open n = Some False)"
    by auto
  from old new ex i show ?thesis
    by simp
qed

section \<open>What the factories change (claim C8)\<close>

lemma createCyclePointNode_frame:
  assumes "createCyclePointNode h rc = Inr (nc, hc)"
  shows "\<forall>a ob. lookup_obj h a = Some ob \<longrightarrow> lookup_obj hc a = Some ob"
proof -
  from assms obtain ob where "hc = h @ [ob]"
    by (auto simp: createCyclePointNode_Inr)
  then show ?thesis
    by (simp add: lookup_obj_def nth_append split: if_splits)
qed

lemma createTaskProxyNode_frame:
  assumes "createTaskProxyNode h rt = Inr (nt, ht)"
  shows "length ht = length h \<and>
      (\<forall>a ob. lookup_obj h a = Some ob \<longrightarrow>
         (\<exists>ob'. lookup_obj ht a = Some ob' \<and> elems ob' = elems ob \<and>
            (\<forall>k. k \<noteq> ''state'' \<longrightarrow> map_of (props ob') k = map_of (props ob) k) \<and>
            (JRef a \<noteq> rt \<longrightarrow> ob' = ob)))"
proof -
  from assms obtain b st where rt: "rt = JRef b"
    and ht: "ht = (if \<not> truthy st \<and> b < length h
            then h[b := (h ! b)\<lparr>props := AList.update ''state'' (JStr []) (props (h ! b))\<rparr>]
            else h)"
    by (auto simp: createTaskProxyNode_Inr)
  have len: "length ht = length h"
    by (simp add: ht)
  have "\<exists>ob'. lookup_obj ht a = Some ob' \<and> elems ob' = elems ob \<and>
            (\<forall>k. k \<noteq> ''state'' \<longrightarrow> map_of (props ob') k = map_of (props ob) k) \<and>
            (JRef a \<noteq> rt \<longrightarrow> ob' = ob)"
    if "lookup_obj h a = Some ob" for a ob
  proof -
    from that have a: "a < length h" and ob: "ob = h ! a"
      by (simp_all add: lookup_obj_def split: if_splits)
    show ?thesis
    proof (cases "a = b \<and> \<not> truthy st")
      case True
      then show ?thesis
        using a ob by (simp add: ht rt lookup_obj_def update_conv')
    next
      case False
      then have "ht ! a = h ! a"
        by (auto simp: ht)
      then show ?thesis
        using a ob len by (simp add: lookup_obj_def)
    qed
  qed
  with len show ?thesis
    by blast
qed

text \<open>
  Claim C8. \<open>createWorkflowNode\<close>, \<open>createFamilyProxyNode\<close> and \<open>createJobNode\<close>
  leave the heap as it is; \<open>createCyclePointNode\<close> only allocates a new object, so
  every object that existed, the input record among them, is unchanged.
  \<open>createTaskProxyNode\<close> allocates nothing, changes no object other than its input
  record, and in that record changes at most the field \<^verbatim>\<open>state\<close>: every other
  field has the value it had or stays absent, and the elements stay the same.
\<close>

theorem factory_frame:
  "(createWorkflowNode h rw = Inr (nw, hw) \<longrightarrow> hw = h) \<and>
   (createFamilyProxyNode h rf = Inr (nf, hf) \<longrightarrow> hf = h) \<and>
   (createJobNode h rj lm = Inr (nj, hj) \<longrightarrow> hj = h) \<and>
   (createCyclePointNode h rc = Inr (nc, hc) \<longrightarrow>
      (\<forall>a ob. lookup_obj h a = Some ob \<longrightarrow> lookup_obj hc a = Some ob)) \<and>
   (createTaskProxyNode h rt = Inr (nt, ht) \<longrightarrow>
      length ht = length h \<and>
      (\<forall>a ob. lookup_obj h a = Some ob \<longrightarrow>
         (\<exists>ob'. lookup_obj ht a = Some ob' \<and> elems ob' = elems ob \<and>
            (\<forall>k. k \<noteq> ''state'' \<longrightarrow> map_of (props ob') k = map_of (props ob) k) \<and>
            (JRef a \<noteq> rt \<longrightarrow> ob' = ob))))"
proof (intro conjI impI)
  show "hw = h" if "createWorkflowNode h rw = Inr (nw, hw)"
    using that by (auto simp: createWorkflowNode_Inr)
  show "hf = h" if "createFamilyProxyNode h rf = Inr (nf, hf)"
    using that by (auto simp: createFamilyProxyNode_Inr)
  show "hj = h" if "createJobNode h rj lm = Inr (nj, hj)"
    using that by (auto simp: createJobNode_Inr)
  show "\<forall>a ob. lookup_obj h a = Some ob \<longrightarrow> lookup_obj hc a = Some ob"
    if "createCyclePointNode h rc = Inr (nc, hc)"
    using that by (rule createCyclePointNode_frame)
  show "length ht = length h" if "createTaskProxyNode h rt = Inr (nt, ht)"
    using createTaskProxyNode_frame [OF that] by (rule conjunct1)
  show "\<forall>a ob. lookup_obj h a = Some ob \<longrightarrow>
         (\<exists>ob'. lookup_obj ht a = Some ob' \<and> elems ob' = elems ob \<and>
            (\<forall>k. k \<noteq> ''state'' \<longrightarrow> map_of (props ob') k = map_of (props ob) k) \<and>
            (JRef a \<noteq> rt \<longrightarrow> ob' = ob))"
    if "createTaskProxyNode h rt = Inr (nt, ht)"
    using createTaskProxyNode_frame [OF that] by (rule conjunct2)
qed

theorem factory_frame_witness:
  "createWorkflowNode example_heap (JRef 0) = Inr (example_workflow_node, example_heap) \<and>
   createFamilyProxyNode example_heap (JRef 4) = Inr (example_family_node, example_heap) \<and>
   createJobNode example_heap (JRef 8) (JStr ''started'') =
     Inr (example_job_node (JStr ''started''), example_heap) \<and>
   createCyclePointNode example_heap (JRef 2) = Inr (example_cyclepoint_node, example_heap_cyclepoint) \<and>
   createTaskProxyNode example_heap (JRef 6) = Inr (example_task_node, example_heap_defaulted) \<and>
   lookup_obj example_heap 2 = Some \<lparr>props = [(''cyclePoint'', JStr ''2024'')], elems = None\<rparr> \<and>
   lookup_obj example_heap_cyclepoint 2 =
     Some \<lparr>props = [(''cyclePoint'', JStr ''2024'')], elems = None\<rparr> \<and>
   lookup_obj example_heap 6 =
     Some \<lparr>props = [(''id'', JStr ''t1''), (''jobs'', JRef 7)], elems = None\<rparr> \<and>
   (\<exists>ob'. lookup_obj example_heap_defaulted 6 = Some ob' \<and> elems ob' = None \<and>
      map_of (props ob') ''id'' = Some (JStr ''t1'') \<and> map_of (props ob') ''jobs'' = Some (JRef 7))"
proof -
  have l2: "lookup_obj example_heap 2 = Some \<lparr>props = [(''cyclePoint'', JStr ''2024'')], elems = None\<rparr>"
    and l6: "lookup_obj example_heap 6 =
      Some \<lparr>props = [(''id'', JStr ''t1''), (''jobs'', JRef 7)], elems = None\<rparr>"
    by (simp_all add: example_heap_def lookup_obj_def)
  note ex = example_createCyclePointNode example_createFamilyProxyNode example_createTaskProxyNode
    example_createJobNode [of "JStr ''started''"] example_createWorkflowNode
  from factory_frame [of example_heap
      "JRef 0" example_workflow_node example_heap
      "JRef 4" example_family_node example_heap
      "JRef 8" "JStr ''started''" "example_job_node (JStr ''started'')" example_heap
      "JRef 2" example_cyclepoint_node example_heap_cyclepoint
      "JRef 6" example_task_node example_heap_defaulted] ex
  have cp: "\<forall>a ob. lookup_obj example_heap a = Some ob \<longrightarrow>
        lookup_obj example_heap_cyclepoint a = Some ob"
    and tp: "\<forall>a ob. lookup_obj example_heap a = Some ob \<longrightarrow>
         (\<exists>ob'. lookup_obj example_heap_defaulted a = Some ob' \<and> elems ob' = elems ob \<and>
            (\<forall>k. k \<noteq> ''state'' \<longrightarrow> map_of (props ob') k = map_of (props ob) k) \<and>
            (JRef a \<noteq> JRef 6 \<longrightarrow> ob' = ob))"
    by simp_all
  from cp l2 have c2: "lookup_obj example_heap_cyclepoint 2 =
      Some \<lparr>props = [(''cyclePoint'', JStr ''2024'')], elems = None\<rparr>"
    by blast
  from tp [rule_format, OF l6] obtain ob' where "lookup_obj example_heap_defaulted 6 = Some ob'"
    "elems ob' = None"
    "\<forall>k. k \<noteq> ''state'' \<longrightarrow>
       map_of (props ob') k = map_of [(''id'', JStr ''t1''), (''jobs'', JRef 7)] k"
    by auto
  then have "\<exists>ob'. lookup_obj example_heap_defaulted 6 = Some ob' \<and> elems ob' = None \<and>
      map_of (props ob') ''id'' = Some (JStr ''t1'') \<and> map_of (props ob') ''jobs'' = Some (JRef 7)"
    by simp
  with ex l2 l6 c2 show ?thesis
    by simp
qed

section \<open>Defaulting of a falsy state (claim C10)\<close>

text \<open>
  Claim C10. For a task-proxy record on the heap, \<open>createTaskProxyNode\<close> leaves the
  heap as it is when the record's \<^verbatim>\<open>state\<close> is truthy, and otherwise writes the empty
  string to the record's \<^verbatim>\<open>state\<close>: not only when the field is absent (it then reads
  as \<^verbatim>\<open>undefined\<close>) but also when it holds \<^verbatim>\<open>''\<close>, \<^verbatim>\<open>null\<close>, \<^verbatim>\<open>0\<close> or \<^verbatim>\<open>false\<close>.
\<close>

theorem createTaskProxyNode_falsy_state:
  assumes "a < length h" and "getProp h (JRef a) ''state'' = Inr st"
  shows "\<exists>n h'. createTaskProxyNode h (JRef a) = Inr (n, h') \<and>
           getProp h' (JRef a) ''state'' = Inr (if truthy st then st else JStr '''') \<and>
           (truthy st \<longrightarrow> h' = h) \<and>
           (st \<in> {JUndefined, JStr '''', JNull, JNum 0, JBool False} \<longrightarrow>
              getProp h' (JRef a) ''state'' = Inr (JStr ''''))"
proof -
  let ?h' = "if \<not> truthy st \<and> a < length h
      then h[a := (h ! a)\<lparr>props := AList.update ''state'' (JStr '''') (props (h ! a))\<rparr>]
      else h"
  obtain i where i: "getProp ?h' (JRef a) ''id'' = Inr i"
    using getProp_total [of "JRef a"] by blast
  then have c: "createTaskProxyNode h (JRef a) =
      Inr (TNode i ''task-proxy'' (JRef a) [] (Some TREE_ITEM_SIZE) (Some False) None, ?h')"
    using assms by (subst createTaskProxyNode_Inr) simp
  have s: "getProp ?h' (JRef a) ''state'' = Inr (if truthy st then st else JStr '''')"
    using assms by (simp add: lookup_obj_def update_conv')
  have f: "st \<in> {JUndefined, JStr '''', JNull, JNum 0, JBool False} \<longrightarrow> \<not> truthy st"
    by auto
  show ?thesis
  proof (intro exI conjI)
    show "createTaskProxyNode h (JRef a) =
      Inr (TNode i ''task-proxy'' (JRef a) [] (Some TREE_ITEM_SIZE) (Some False) None, ?h')"
      by (rule c)
    show "getProp ?h' (JRef a) ''state'' = Inr (if truthy st then st else JStr '''')"
      by (rule s)
    show "truthy st \<longrightarrow> ?h' = h"
      by simp
    show "st \<in> {JUndefined, JStr '''', JNull, JNum 0, JBool False} \<longrightarrow>
        getProp ?h' (JRef a) ''state'' = Inr (JStr '''')"
      using s f by auto
  qed
qed

theorem createTaskProxyNode_falsy_state_witness:
  "6 < length (example_heap[6 := \<lparr>props = [(''id'', JStr ''t1''), (''state'', JNum 0)], elems = None\<rparr>]) \<and>
   getProp (example_heap[6 := \<lparr>props = [(''id'', JStr ''t1''), (''state'', JNum 0)], elems = None\<rparr>])
     (JRef 6) ''state'' = Inr (JNum 0) \<and>
   (\<exists>n h'. createTaskProxyNode
        (example_heap[6 := \<lparr>props = [(''id'', JStr ''t1''), (''state'', JNum 0)], elems = None\<rparr>])
        (JRef 6) = Inr (n, h') \<and>
      getProp h' (JRef 6) ''state'' = Inr (JStr ''''))"
  (is "?len \<and> ?st \<and> ?concl")
proof -
  have len: ?len and st: ?st
    by (simp_all add: example_heap_def lookup_obj_def)
  from createTaskProxyNode_falsy_state [OF len st] have ?concl
    by auto
  with len st show ?thesis
    by simp
qed

section \<open>Heaps that agree up to defaulted states\<close>

lemma sim_refl: "n \<le> length h \<Longrightarrow> sim n h h"
  by (simp add: sim_def sim_obj_def)

lemma sim_objD:
  assumes "sim_obj ob ob'"
  shows "elems ob' = elems ob"
    and "k \<noteq> ''state'' \<Longrightarrow> map_of (props ob') k = map_of (props ob) k"
    and "truthy (state_of ob) \<Longrightarrow> state_of ob' = state_of ob"
    and "truthy (state_of ob') \<Longrightarrow> state_of ob' = state_of ob"
  using assms by (simp_all add: sim_obj_def)

lemma sim_objI:
  assumes "elems ob' = elems ob"
    and "\<And>k. k \<noteq> ''state'' \<Longrightarrow> map_of (props ob') k = map_of (props ob) k"
    and "truthy (state_of ob) \<Longrightarrow> state_of ob' = state_of ob"
    and "truthy (state_of ob') \<Longrightarrow> state_of ob' = state_of ob"
  shows "sim_obj ob ob'"
  unfolding sim_obj_def using assms by blast

lemma sim_obj_sym:
  assumes "sim_obj ob ob'"
  shows "sim_obj ob' ob"
proof (rule sim_objI)
  show "elems ob = elems ob'"
    using sim_objD(1) [OF assms] by simp
  show "map_of (props ob) k = map_of (props ob') k" if "k \<noteq> ''state''" for k
    using sim_objD(2) [OF assms that] by simp
  show "state_of ob = state_of ob'" if "truthy (state_of ob')"
    using sim_objD(4) [OF assms that] by simp
  show "state_of ob = state_of ob'" if "truthy (state_of ob)"
    using sim_objD(3) [OF assms that] by simp
qed

lemma sim_obj_trans:
  assumes 1: "sim_obj ob ob'" and 2: "sim_obj ob' ob''"
  shows "sim_obj ob ob''"
proof (rule sim_objI)
  show "elems ob'' = elems ob"
    using sim_objD(1) [OF 1] sim_objD(1) [OF 2] by simp
  show "map_of (props ob'') k = map_of (props ob) k" if "k \<noteq> ''state''" for k
    using sim_objD(2) [OF 1 that] sim_objD(2) [OF 2 that] by simp
  show "state_of ob'' = state_of ob" if t: "truthy (state_of ob)"
  proof -
    have e: "state_of ob' = state_of ob"
      using sim_objD(3) [OF 1 t] .
    with t have "truthy (state_of ob')"
      by simp
    from sim_objD(3) [OF 2 this] e show ?thesis
      by simp
  qed
  show "state_of ob'' = state_of ob" if t: "truthy (state_of ob'')"
  proof -
    have e: "state_of ob'' = state_of ob'"
      using sim_objD(4) [OF 2 t] .
    with t have "truthy (state_of ob')"
      by simp
    from sim_objD(4) [OF 1 this] e show ?thesis
      by simp
  qed
qed

lemma sim_sym: "sim n h h' \<Longrightarrow> sim n h' h"
  unfolding sim_def by (blast intro: sim_obj_sym)

lemma sim_trans: "sim n h h' \<Longrightarrow> sim n h' h'' \<Longrightarrow> sim n h h''"
  unfolding sim_def by (blast intro: sim_obj_trans)

lemma sim_append: "n \<le> length h \<Longrightarrow> sim n h (h @ xs)"
  by (simp add: sim_def sim_obj_def nth_append)

lemma state_of_update:
  "state_of (ob\<lparr>props := AList.update ''state'' v (props ob)\<rparr>) = v"
  by (simp add: state_of_def update_conv')

lemma sim_obj_default:
  "\<not> truthy (state_of ob) \<Longrightarrow>
   sim_obj ob (ob\<lparr>props := AList.update ''state'' (JStr '''') (props ob)\<rparr>)"
  by (simp add: sim_obj_def state_of_update update_conv')

lemma sim_obj_refl: "sim_obj ob ob"
  by (simp add: sim_obj_def)

lemma sim_default_state:
  assumes "n \<le> length h"
  shows "sim n h (default_state h a)"
proof (cases "a < length h \<and> \<not> truthy (state_of (h ! a))")
  case True
  then have "sim_obj (h ! b) (default_state h a ! b)" if "b < n" for b
    using that assms by (cases "b = a") (simp_all add: default_state_def sim_obj_default sim_obj_refl)
  with assms True show ?thesis
    by (simp add: sim_def default_state_def)
next
  case False
  then have "default_state h a = h"
    by (auto simp: default_state_def)
  with assms show ?thesis
    by (simp add: sim_refl)
qed

lemma getProp_state: "a < length h \<Longrightarrow> getProp h (JRef a) ''state'' = Inr (state_of (h ! a))"
  by (simp add: lookup_obj_def state_of_def split: option.splits)

lemma getProp_sim:
  assumes "sim n h h'" and "val_ok n v" and "k \<noteq> ''state''"
  shows "getProp h' v k = getProp h v k"
proof (cases v)
  case (JRef a)
  with assms have "a < length h" "a < length h'" "sim_obj (h ! a) (h' ! a)"
    by (auto simp: sim_def val_ok_def)
  with assms(3) show ?thesis
    by (simp add: JRef lookup_obj_def sim_objD(2))
qed simp_all

lemma iterate_sim:
  assumes "sim n h h'" and "val_ok n v"
  shows "iterate h' v = iterate h v"
proof (cases v)
  case (JRef a)
  with assms have "a < length h" "a < length h'" "sim_obj (h ! a) (h' ! a)"
    by (auto simp: sim_def val_ok_def)
  then show ?thesis
    by (simp add: JRef lookup_obj_def sim_objD(1))
qed simp_all

lemma state_sim:
  assumes "sim n h h'" and "a < n"
  shows "truthy (state_of (h' ! a)) = truthy (state_of (h ! a))"
    and "truthy (state_of (h ! a)) \<Longrightarrow> state_of (h' ! a) = state_of (h ! a)"
proof -
  from assms have s: "sim_obj (h ! a) (h' ! a)"
    by (simp add: sim_def)
  show "truthy (state_of (h ! a)) \<Longrightarrow> state_of (h' ! a) = state_of (h ! a)"
    using sim_objD(3) [OF s] .
  show "truthy (state_of (h' ! a)) = truthy (state_of (h ! a))"
    using sim_objD(3) [OF s] sim_objD(4) [OF s] by auto
qed

section \<open>What each loop body does\<close>

declare getProp.simps [simp del] setProp.simps [simp del] iterate.simps [simp del]

lemma cyclePointBody_cases:
  "cyclePointBody x (t, h) =
     (case getProp h x ''cyclePoint'' of
        Inl e \<Rightarrow> (Inl e, (t, h))
      | Inr c \<Rightarrow>
          (Inr (),
           (t @ [AddCyclePoint (TNode c ''cyclepoint'' (JRef (length h)) []
                   (Some TREE_ITEM_SIZE) (Some True) None)],
            h @ [\<lparr>props = [(''id'', c), (''name'', c)], elems = None\<rparr>])))"
  by (simp add: cyclePointBody_def createCyclePointNode_def addCyclePoint_def bindS_def updH_def
      callT_def bindE_def split: sum.splits)

lemma familyProxyBody_cases:
  "familyProxyBody x (t, h) =
     (case getProp h x ''id'' of
        Inl e \<Rightarrow> (Inl e, (t, h))
      | Inr i \<Rightarrow>
          (Inr (),
           (t @ [AddFamilyProxy (TNode i ''family-proxy'' x [] (Some TREE_ITEM_SIZE) (Some True)
                   None)], h)))"
  by (simp add: familyProxyBody_def createFamilyProxyNode_def addFamilyProxy_def bindS_def
      updH_def callT_def bindE_def split: sum.splits)

lemma setProp_state:
  "a < length h \<Longrightarrow> \<not> truthy (state_of (h ! a)) \<Longrightarrow>
   setProp h (JRef a) ''state'' (JStr []) = Inr (default_state h a)"
  by (simp add: default_state_def setProp.simps)

lemma createTaskProxyNode_JRef:
  assumes "getProp h (JRef a) ''id'' = Inr i"
  shows "createTaskProxyNode h (JRef a) =
     Inr (TNode i ''task-proxy'' (JRef a) [] (Some TREE_ITEM_SIZE) (Some False) None,
          default_state h a)"
proof (cases "a < length h")
  case True
  have "sim (length h) h (default_state h a)"
    by (simp add: sim_default_state)
  with True have i': "getProp (default_state h a) (JRef a) ''id'' = Inr i"
    using assms by (subst getProp_sim [where n = "length h" and h = h]) (simp_all add: val_ok_def)
  show ?thesis
  proof (cases "truthy (state_of (h ! a))")
    case t: True
    then have "default_state h a = h"
      by (simp add: default_state_def)
    with True t assms show ?thesis
      by (simp add: createTaskProxyNode_def getProp_state del: getProp.simps)
  next
    case False
    with True i' show ?thesis
      by (simp add: createTaskProxyNode_def getProp_state setProp_state
          del: getProp.simps setProp.simps)
  qed
next
  case False
  then have "default_state h a = h"
    by (simp add: default_state_def)
  with False assms show ?thesis
    by (simp add: createTaskProxyNode_def lookup_obj_def getProp.simps setProp.simps)
qed

lemma createTaskProxyNode_not_ref:
  "\<forall>a. v \<noteq> JRef a \<Longrightarrow> createTaskProxyNode h v = Inl TypeError"
  by (cases v) (simp_all add: createTaskProxyNode_def getProp.simps setProp.simps)

lemma taskProxyBody_JRef:
  assumes "getProp h (JRef a) ''id'' = Inr i"
    and "getProp (default_state h a) (JRef a) ''jobs'' = Inr jobs"
  shows "taskProxyBody (JRef a) (t, h) =
     (if truthy jobs
      then (case iterate (default_state h a) jobs of
              Inl e \<Rightarrow>
                (Inl e,
                 (t @ [AddTaskProxy (TNode i ''task-proxy'' (JRef a) [] (Some TREE_ITEM_SIZE)
                         (Some False) None)],
                  default_state h a))
            | Inr js \<Rightarrow>
                forOf (jobBody (JRef a)) js
                  (t @ [AddTaskProxy (TNode i ''task-proxy'' (JRef a) [] (Some TREE_ITEM_SIZE)
                          (Some False) None)],
                   default_state h a))
      else (Inr (),
            (t @ [AddTaskProxy (TNode i ''task-proxy'' (JRef a) [] (Some TREE_ITEM_SIZE)
                    (Some False) None)],
             default_state h a)))"
proof -
  let ?n = "TNode i ''task-proxy'' (JRef a) [] (Some TREE_ITEM_SIZE) (Some False) None"
  let ?s1 = "(t @ [AddTaskProxy ?n], default_state h a)"
  let ?k3 = "\<lambda>jobs. if truthy jobs
       then bindS (readH (\<lambda>h. bindE (getProp h (JRef a) ''jobs'') (iterate h)))
              (forOf (jobBody (JRef a)))
       else (\<lambda>s. (Inr (), s))"
  let ?k2 = "\<lambda>_::unit. bindS (readH (\<lambda>h. getProp h (JRef a) ''jobs'')) ?k3"
  have 1: "updH (\<lambda>h. createTaskProxyNode h (JRef a)) (t, h) = (Inr ?n, (t, default_state h a))"
    using createTaskProxyNode_JRef [OF assms(1)] by simp
  have 2: "callT addTaskProxy ?n (t, default_state h a) = (Inr (), ?s1)"
    by (simp add: addTaskProxy_def)
  have 3: "readH (\<lambda>h. getProp h (JRef a) ''jobs'') ?s1 = (Inr jobs, ?s1)"
    using assms(2) by (simp del: getProp.simps)
  have 4: "readH (\<lambda>h. bindE (getProp h (JRef a) ''jobs'') (iterate h)) ?s1 =
      (iterate (default_state h a) jobs, ?s1)"
    using assms(2) by (simp del: getProp.simps)
  have "taskProxyBody (JRef a) (t, h) = bindS (callT addTaskProxy ?n) ?k2 (t, default_state h a)"
    unfolding taskProxyBody_def
    by (rule bindS_simps(2) [where m = "updH (\<lambda>h. createTaskProxyNode h (JRef a))" and s = "(t, h)", OF 1])
  also have "\<dots> = ?k2 () ?s1"
    by (rule bindS_simps(2) [where m = "callT addTaskProxy ?n" and s = "(t, default_state h a)", OF 2])
  also have "\<dots> = ?k3 jobs ?s1"
    by (rule bindS_simps(2) [where m = "readH (\<lambda>h. getProp h (JRef a) ''jobs'')" and s = ?s1, OF 3])
  also have "\<dots> = (if truthy jobs
      then (case iterate (default_state h a) jobs of
              Inl e \<Rightarrow> (Inl e, ?s1)
            | Inr js \<Rightarrow> forOf (jobBody (JRef a)) js ?s1)
      else (Inr (), ?s1))"
    by (simp add: bindS_def 4 split: sum.splits del: readH_simp)
  finally show ?thesis .
qed

lemma taskProxyBody_not_ref:
  "\<forall>a. v \<noteq> JRef a \<Longrightarrow> taskProxyBody v (t, h) = (Inl TypeError, (t, h))"
  by (simp add: taskProxyBody_def createTaskProxyNode_not_ref)

section \<open>The loops\<close>

lemma forOf_preserves:
  assumes "\<And>x t h r t' h'. x \<in> set xs \<Longrightarrow> I h \<Longrightarrow> body x (t, h) = (r, (t', h')) \<Longrightarrow> I h'"
    and "I h"
    and "forOf body xs (t, h) = (r, (t', h'))"
  shows "I h'"
  using assms
proof (induction xs arbitrary: t h)
  case Nil
  then show ?case by simp
next
  case (Cons x xs)
  obtain r1 t1 h1 where b: "body x (t, h) = (r1, (t1, h1))"
    by (metis prod_cases3)
  have I1: "I h1"
    using Cons.prems(1) [of x h t r1 t1 h1] Cons.prems(2) b by simp
  show ?case
  proof (cases r1)
    case (Inl e)
    with Cons.prems(3) b have "h' = h1"
      by simp
    with I1 show ?thesis
      by simp
  next
    case (Inr u)
    with Cons.prems(3) b have "forOf body xs (t1, h1) = (r, (t', h'))"
      by simp
    moreover have "\<And>y t h r t' h'. y \<in> set xs \<Longrightarrow> I h \<Longrightarrow> body y (t, h) = (r, (t', h')) \<Longrightarrow> I h'"
      using Cons.prems(1) by (meson list.set_intros(2))
    ultimately show ?thesis
      using Cons.IH [of h1 t1] I1 by blast
  qed
qed

lemma jobBody_heap: "jobBody tp j (t, h) = (r, (t', h')) \<Longrightarrow> h' = h"
  by (auto simp: jobBody_cases createJobNode_def Let_def bindE_def split: sum.splits)

lemma forOf_jobBody_heap: "forOf (jobBody tp) js (t, h) = (r, (t', h')) \<Longrightarrow> h' = h"
  by (rule forOf_preserves [where I = "\<lambda>x. x = h" and body = "jobBody tp" and xs = js])
    (auto dest: jobBody_heap)

lemma familyProxyBody_heap: "familyProxyBody x (t, h) = (r, (t', h')) \<Longrightarrow> h' = h"
  by (auto simp: familyProxyBody_cases split: sum.splits)

lemma forOf_familyProxyBody_heap: "forOf familyProxyBody xs (t, h) = (r, (t', h')) \<Longrightarrow> h' = h"
  by (rule forOf_preserves [where I = "\<lambda>x. x = h" and body = familyProxyBody and xs = xs])
    (auto dest: familyProxyBody_heap)

lemma cyclePointBody_sim:
  assumes "cyclePointBody x (t, h) = (r, (t', h'))" and "n \<le> length h"
  shows "sim n h h'"
  using assms by (auto simp: cyclePointBody_cases sim_append sim_refl split: sum.splits)

lemma taskProxyBody_JRef_heap:
  assumes "taskProxyBody (JRef a) (t, h) = (r, (t', h'))"
  shows "h' = default_state h a"
proof -
  obtain i jobs where "getProp h (JRef a) ''id'' = Inr i"
    "getProp (default_state h a) (JRef a) ''jobs'' = Inr jobs"
    using getProp_total [of "JRef a"] by (metis jsval.distinct(9) jsval.distinct(17))
  from taskProxyBody_JRef [OF this, of t] assms show ?thesis
    by (auto split: if_splits sum.splits dest: forOf_jobBody_heap forOf_jobBody_heap [OF sym])
qed

lemma taskProxyBody_heap:
  assumes "taskProxyBody v (t, h) = (r, (t', h'))"
  shows "h' = h \<or> (\<exists>a. v = JRef a \<and> h' = default_state h a)"
proof (cases "\<exists>a. v = JRef a")
  case True
  with assms show ?thesis
    by (auto dest: taskProxyBody_JRef_heap)
next
  case False
  with assms show ?thesis
    by (simp add: taskProxyBody_not_ref)
qed

lemma taskProxyBody_sim:
  assumes "taskProxyBody v (t, h) = (r, (t', h'))" and "n \<le> length h"
  shows "sim n h h'"
  using taskProxyBody_heap [OF assms(1)] assms(2) by (auto simp: sim_refl sim_default_state)

lemma forOf_sim_frame:
  assumes "\<And>x t h r t' h'. body x (t, h) = (r, (t', h')) \<Longrightarrow> n \<le> length h \<Longrightarrow> sim n h h'"
    and "forOf body xs (t, h) = (r, (t', h'))" and "n \<le> length h"
  shows "sim n h h'"
proof (rule forOf_preserves [where I = "sim n h" and body = body and xs = xs])
  show "sim n h h" using assms(3) by (rule sim_refl)
  show "forOf body xs (t, h) = (r, (t', h'))" by fact
  show "sim n h h2" if "sim n h h1" "body x (t1, h1) = (r1, (t2, h2))" for x t1 h1 r1 t2 h2
  proof -
    from that(1) have "n \<le> length h1"
      by (simp add: sim_def)
    from assms(1) [OF that(2) this] that(1) show ?thesis
      by (blast intro: sim_trans)
  qed
qed

section \<open>The routine on a validated workflow\<close>

lemma isArray_iterate:
  assumes "isArray h v"
  shows "\<exists>a xs. v = JRef a \<and> a < length h \<and> iterate h v = Inr xs"
  using assms
  by (cases v) (auto simp: lookup_obj_def iterate.simps split: if_splits)

lemma containsTreeData_reads:
  assumes "containsTreeData h w = Inr (JBool True)"
  obtains a c f p cps fps tps where "w = JRef a" "a < length h"
    "getProp h w ''cyclePoints'' = Inr c" "iterate h c = Inr cps" "val_ok (length h) c"
    "getProp h w ''familyProxies'' = Inr f" "iterate h f = Inr fps" "val_ok (length h) f"
    "getProp h w ''taskProxies'' = Inr p" "iterate h p = Inr tps" "val_ok (length h) p"
proof -
  from assms containsTreeData_cases [of h w] have s: "spec_containsTreeData h w"
    by auto
  then have hf: "has_array_field h w ''cyclePoints''" "has_array_field h w ''familyProxies''"
    "has_array_field h w ''taskProxies''"
    by (simp_all add: spec_containsTreeData_def)
  from hf(1) obtain a where a: "w = JRef a" "a < length h"
    by (cases w) (auto simp: has_array_field_def lookup_obj_def split: if_splits)
  from hf obtain c f p where r: "getProp h w ''cyclePoints'' = Inr c" "isArray h c"
    "getProp h w ''familyProxies'' = Inr f" "isArray h f"
    "getProp h w ''taskProxies'' = Inr p" "isArray h p"
    unfolding getProp_field by blast
  from isArray_iterate [OF r(2)] isArray_iterate [OF r(4)] isArray_iterate [OF r(6)]
  obtain cps fps tps where i: "iterate h c = Inr cps" "val_ok (length h) c"
    "iterate h f = Inr fps" "val_ok (length h) f" "iterate h p = Inr tps" "val_ok (length h) p"
    by (auto simp: val_ok_def)
  from a r i show ?thesis
    by (intro that)
qed

lemma bindS_cong_post:
  assumes "\<And>v s'. m s = (Inr v, s') \<Longrightarrow> f v s' = g v s'"
  shows "bindS m f s = bindS m g s"
  using assms by (simp add: bindS_def split: prod.splits sum.splits)

lemma read_array_sim:
  assumes "sim n h h1" and "val_ok n w" and "val_ok n c" and "k \<noteq> ''state''"
    and "getProp h w k = Inr c" and "iterate h c = Inr xs"
  shows "readH (\<lambda>h. bindE (getProp h w k) (iterate h)) (t1, h1) = (Inr xs, (t1, h1))"
  using assms getProp_sim [OF assms(1,2,4)] iterate_sim [OF assms(1,3)] by simp

lemma populateBody_valid:
  assumes i: "getProp h w ''id'' = Inr i" and w: "val_ok (length h) w"
    and c: "getProp h w ''cyclePoints'' = Inr c" "iterate h c = Inr cps" "val_ok (length h) c"
    and f: "getProp h w ''familyProxies'' = Inr f" "iterate h f = Inr fps" "val_ok (length h) f"
    and p: "getProp h w ''taskProxies'' = Inr p" "iterate h p = Inr tps" "val_ok (length h) p"
  shows "populateBody w (t, h) =
     bindS (forOf cyclePointBody cps) (\<lambda>_.
     bindS (forOf familyProxyBody fps) (\<lambda>_. forOf taskProxyBody tps))
       (t @ [SetWorkflow (TNode i ''workflow'' w [] None None None)], h)"
proof -
  let ?n = "TNode i ''workflow'' w [] None None None"
  let ?s0 = "(t @ [SetWorkflow ?n], h)"
  let ?rd = "\<lambda>k. readH (\<lambda>h. bindE (getProp h w k) (iterate h))"
  let ?k5 = "\<lambda>_::unit. bindS (?rd ''taskProxies'') (forOf taskProxyBody)"
  let ?k3 = "\<lambda>_::unit. bindS (?rd ''familyProxies'') (\<lambda>fps. bindS (forOf familyProxyBody fps) ?k5)"
  let ?k1 = "\<lambda>_::unit. bindS (?rd ''cyclePoints'') (\<lambda>cps. bindS (forOf cyclePointBody cps) ?k3)"
  have 1: "updH (\<lambda>h. createWorkflowNode h w) (t, h) = (Inr ?n, (t, h))"
    using i by (simp add: createWorkflowNode_def)
  have 2: "callT setWorkflow ?n (t, h) = (Inr (), ?s0)"
    by (simp add: setWorkflow_def)
  have 3: "?rd ''cyclePoints'' ?s0 = (Inr cps, ?s0)"
    using c by simp
  have "populateBody w (t, h) = bindS (callT setWorkflow ?n) ?k1 (t, h)"
    unfolding populateBody_def
    by (rule bindS_simps(2) [where m = "updH (\<lambda>h. createWorkflowNode h w)" and s = "(t, h)", OF 1])
  also have "\<dots> = ?k1 () ?s0"
    by (rule bindS_simps(2) [where m = "callT setWorkflow ?n" and s = "(t, h)", OF 2])
  also have "\<dots> = bindS (forOf cyclePointBody cps) ?k3 ?s0"
    by (rule bindS_simps(2) [where m = "?rd ''cyclePoints''" and s = ?s0, OF 3])
  also have "\<dots> = bindS (forOf cyclePointBody cps) (\<lambda>_.
       bindS (forOf familyProxyBody fps) (\<lambda>_. forOf taskProxyBody tps)) ?s0"
  proof (rule bindS_cong_post)
    fix v s1
    assume r1: "forOf cyclePointBody cps ?s0 = (Inr v, s1)"
    obtain t1 h1 where s1: "s1 = (t1, h1)"
      by (cases s1)
    have sim1: "sim (length h) h h1"
      using r1 unfolding s1
      by (rule forOf_sim_frame [where body = cyclePointBody, rotated]) (simp_all add: cyclePointBody_sim)
    have 4: "?rd ''familyProxies'' (t1, h1) = (Inr fps, (t1, h1))"
      using sim1 w f(3) _ f(1,2) by (rule read_array_sim) simp
    have "?k3 v s1 = bindS (forOf familyProxyBody fps) ?k5 (t1, h1)"
      unfolding s1 by (rule bindS_simps(2) [where m = "?rd ''familyProxies''" and s = "(t1, h1)", OF 4])
    also have "\<dots> = bindS (forOf familyProxyBody fps) (\<lambda>_. forOf taskProxyBody tps) (t1, h1)"
    proof (rule bindS_cong_post)
      fix u s2
      assume r2: "forOf familyProxyBody fps (t1, h1) = (Inr u, s2)"
      obtain t2 h2 where s2: "s2 = (t2, h2)"
        by (cases s2)
      from r2 have "h2 = h1"
        unfolding s2 by (rule forOf_familyProxyBody_heap)
      with sim1 have 5: "?rd ''taskProxies'' (t2, h2) = (Inr tps, (t2, h2))"
        using w p by (intro read_array_sim [where n = "length h" and h = h and c = p]) simp_all
      show "?k5 u s2 = forOf taskProxyBody tps s2"
        unfolding s2 by (rule bindS_simps(2) [where m = "?rd ''taskProxies''" and s = "(t2, h2)", OF 5])
    qed
    finally show "?k3 v s1 =
        bindS (forOf familyProxyBody fps) (\<lambda>_. forOf taskProxyBody tps) s1"
      unfolding s1 .
  qed
  finally show ?thesis .
qed

lemma populate_valid:
  assumes "containsTreeData h w = Inr (JBool True)"
  shows "populateTreeFromGraphQLData (Some t) w h =
     (case populateBody w (t, h) of (r, t', h') \<Rightarrow> (r, Some t', h'))"
proof -
  from assms obtain a where "w = JRef a"
    by (rule containsTreeData_reads)
  with assms show ?thesis
    by (simp add: populateTreeFromGraphQLData_def)
qed

lemma populate_Inr_valid:
  assumes "populateTreeFromGraphQLData tree w h = (Inr u, tree', h')"
  shows "containsTreeData h w = Inr (JBool True) \<and> (\<exists>t. tree = Some t)"
proof (rule ccontr)
  assume "\<not> ?thesis"
  then have "tree = None \<or> w = JNull \<or> containsTreeData h w \<noteq> Inr (JBool True)"
    by auto
  then have "fst (populateTreeFromGraphQLData tree w h) = Inl invalid_data"
    using containsTreeData_cases [of h w]
    by (cases tree) (auto simp: populateTreeFromGraphQLData_def)
  with assms show False
    by simp
qed

lemma bindS_Inr:
  assumes "bindS m f s = (Inr v, s')"
  obtains u s1 where "m s = (Inr u, s1)" "f u s1 = (Inr v, s')"
  using assms by (auto simp: bindS_def split: prod.splits sum.splits)

lemma field_elements:
  assumes "getProp h w k = Inr c" and "iterate h c = Inr xs"
  shows "elements h (field h w k) = xs"
  using assms by (simp add: field_def elements_def)

section \<open>Calls made on a well-formed workflow (claim C1)\<close>

lemma forOf_calls:
  assumes "\<And>x t h. x \<in> set xs \<Longrightarrow> I h \<Longrightarrow>
      \<exists>cs h'. body x (t, h) = (Inr (), (t @ cs, h')) \<and> I h' \<and> map call_sig cs = g x"
    and "I h"
  shows "\<exists>cs h'. forOf body xs (t, h) = (Inr (), (t @ cs, h')) \<and> I h' \<and>
            map call_sig cs = concat (map g xs)"
  using assms
proof (induction xs arbitrary: t h)
  case Nil
  then show ?case by simp
next
  case (Cons x xs)
  from Cons.prems(1) [of x h t] Cons.prems(2)
  obtain cs1 h1 where 1: "body x (t, h) = (Inr (), (t @ cs1, h1))" "I h1" "map call_sig cs1 = g x"
    by auto
  have "\<exists>cs h'. forOf body xs (t @ cs1, h1) = (Inr (), ((t @ cs1) @ cs, h')) \<and> I h' \<and>
            map call_sig cs = concat (map g xs)"
    using Cons.prems(1) 1(2) by (intro Cons.IH) simp_all
  then obtain cs2 h2 where 2: "forOf body xs (t @ cs1, h1) = (Inr (), (t @ cs1 @ cs2, h2))"
    "I h2" "map call_sig cs2 = concat (map g xs)"
    by auto
  from 1 2 have "forOf body (x # xs) (t, h) = (Inr (), (t @ (cs1 @ cs2), h2)) \<and> I h2 \<and>
      map call_sig (cs1 @ cs2) = concat (map g (x # xs))"
    by simp
  then show ?case
    by blast
qed

lemma is_record_val_ok: "is_record h x \<Longrightarrow> val_ok (length h) x"
  by (cases x) (simp_all add: is_record_def val_ok_def)

lemma record_read:
  assumes "is_record h x" and "sim (length h) h h1" and "k \<noteq> ''state''"
  shows "getProp h1 x k = Inr (field h x k)"
proof -
  from assms(1) obtain v where "getProp h x k = Inr v"
    using getProp_total [of x h k] by (auto simp: is_record_def)
  with getProp_sim [OF assms(2) is_record_val_ok [OF assms(1)] assms(3)] show ?thesis
    by (simp add: field_def)
qed

lemma cyclePointBody_calls:
  assumes "is_record h x" and "sim (length h) h h1"
  shows "\<exists>cs h'. cyclePointBody x (t, h1) = (Inr (), (t @ cs, h')) \<and> sim (length h) h h' \<and>
           map call_sig cs = [(''addCyclePoint'', field h x ''cyclePoint'')]"
proof -
  from assms(2) have "length h \<le> length h1"
    by (simp add: sim_def)
  then have "sim (length h) h1 (h1 @ ys)" for ys
    by (rule sim_append)
  with assms(2) have "sim (length h) h (h1 @ ys)" for ys
    by (blast intro: sim_trans)
  then show ?thesis
    using record_read [OF assms, of "''cyclePoint''"]
    by (simp add: cyclePointBody_cases call_sig_def)
qed

lemma familyProxyBody_calls:
  assumes "is_record h x" and "sim (length h) h h1"
  shows "\<exists>cs h'. familyProxyBody x (t, h1) = (Inr (), (t @ cs, h')) \<and> sim (length h) h h' \<and>
           map call_sig cs = [(''addFamilyProxy'', field h x ''id'')]"
  using record_read [OF assms, of "''id''"] assms(2)
  by (simp add: familyProxyBody_cases call_sig_def)

lemma jobBody_calls:
  assumes "is_record h x" and "sim (length h) h h1"
  shows "\<exists>cs h'. jobBody (JRef a) x (t, h1) = (Inr (), (t @ cs, h')) \<and> sim (length h) h h' \<and>
           map call_sig cs = [(''addJob'', field h x ''id'')]"
proof -
  obtain m where "getProp h1 (JRef a) ''latestMessage'' = Inr m"
    using getProp_total [of "JRef a"] by blast
  then show ?thesis
    using record_read [OF assms, of "''id''"] assms(2)
    by (simp add: jobBody_cases createJobNode_def Let_def call_sig_def)
qed

lemma taskProxyBody_calls:
  assumes "is_task_record h x" and "sim (length h) h h1"
  shows "\<exists>cs h'. taskProxyBody x (t, h1) = (Inr (), (t @ cs, h')) \<and> sim (length h) h h' \<and>
           map call_sig cs =
             (''addTaskProxy'', field h x ''id'') #
             map (\<lambda>j. (''addJob'', field h j ''id'')) (jobs_of h x)"
proof -
  from assms(1) obtain a where x: "x = JRef a" and a: "a < length h"
    by (cases x) (simp_all add: is_task_record_def)
  then have rec: "is_record h x"
    by (simp add: is_record_def)
  let ?h2 = "default_state h1 a"
  let ?n = "TNode (field h x ''id'') ''task-proxy'' (JRef a) [] (Some TREE_ITEM_SIZE)
      (Some False) None"
  from assms(2) have "length h \<le> length h1"
    by (simp add: sim_def)
  then have "sim (length h) h1 ?h2"
    by (rule sim_default_state)
  with assms(2) have sim2: "sim (length h) h ?h2"
    by (blast intro: sim_trans)
  have i: "getProp h1 (JRef a) ''id'' = Inr (field h x ''id'')"
    using record_read [OF rec assms(2), of "''id''"] x by simp
  have j: "getProp ?h2 (JRef a) ''jobs'' = Inr (field h x ''jobs'')"
    using record_read [OF rec sim2, of "''jobs''"] x by simp
  note body = taskProxyBody_JRef [OF i j, of t]
  show ?thesis
  proof (cases "truthy (field h x ''jobs'')")
    case False
    with body sim2 show ?thesis
      unfolding x by (simp add: call_sig_def jobs_of_def)
  next
    case True
    with assms(1) obtain js where js: "iterate h (field h x ''jobs'') = Inr js"
      "list_all (is_record h) js"
      by (auto simp: is_task_record_def split: sum.splits)
    then have "val_ok (length h) (field h x ''jobs'')"
      by (cases "field h x ''jobs''")
        (auto simp: val_ok_def iterate.simps lookup_obj_def split: if_splits)
    with js(1) sim2 have it: "iterate ?h2 (field h x ''jobs'') = Inr js"
      by (simp add: iterate_sim)
    have "\<exists>cs h'. forOf (jobBody (JRef a)) js (t @ [AddTaskProxy ?n], ?h2) =
          (Inr (), ((t @ [AddTaskProxy ?n]) @ cs, h')) \<and> sim (length h) h h' \<and>
          map call_sig cs = concat (map (\<lambda>j. [(''addJob'', field h j ''id'')]) js)"
      using js(2) sim2
      by (intro forOf_calls [where I = "sim (length h) h"]) (simp_all add: jobBody_calls list_all_iff)
    then obtain cs h' where run: "forOf (jobBody (JRef a)) js (t @ [AddTaskProxy ?n], ?h2) =
          (Inr (), (t @ AddTaskProxy ?n # cs, h'))" "sim (length h) h h'"
      "map call_sig cs = map (\<lambda>j. (''addJob'', field h j ''id'')) js"
      by auto
    have "jobs_of h x = js"
      using True js(1) by (simp add: jobs_of_def elements_def)
    with body True it run show ?thesis
      unfolding x by (simp add: call_sig_def)
  qed
qed

lemma populateBody_calls:
  assumes valid: "containsTreeData h w = Inr (JBool True)" and wf: "well_formed h w"
  shows "\<exists>cs h'. populateBody w (t, h) = (Inr (), (t @ cs, h')) \<and> sim (length h) h h' \<and>
           map call_sig cs = expected_calls h w"
proof -
  from valid obtain b c f p cps fps tps where rd: "w = JRef b" "b < length h"
    "getProp h w ''cyclePoints'' = Inr c" "iterate h c = Inr cps" "val_ok (length h) c"
    "getProp h w ''familyProxies'' = Inr f" "iterate h f = Inr fps" "val_ok (length h) f"
    "getProp h w ''taskProxies'' = Inr p" "iterate h p = Inr tps" "val_ok (length h) p"
    by (rule containsTreeData_reads)
  obtain i where i: "getProp h w ''id'' = Inr i"
    using getProp_total [of w] rd(1) by auto
  from rd(1,2) have w: "val_ok (length h) w"
    by (simp add: val_ok_def)
  have el: "elements h (field h w ''cyclePoints'') = cps"
    "elements h (field h w ''familyProxies'') = fps"
    "elements h (field h w ''taskProxies'') = tps"
    using rd by (simp_all add: field_elements)
  with wf have ok: "list_all (is_record h) cps" "list_all (is_record h) fps"
    "list_all (is_task_record h) tps"
    by (simp_all add: well_formed_def)
  let ?root = "SetWorkflow (TNode i ''workflow'' w [] None None None)"
  let ?I = "sim (length h) h"
  have "?I h"
    by (simp add: sim_refl)
  with ok(1) have "\<exists>cs h'. forOf cyclePointBody cps (t @ [?root], h) =
        (Inr (), ((t @ [?root]) @ cs, h')) \<and> ?I h' \<and>
        map call_sig cs = concat (map (\<lambda>x. [(''addCyclePoint'', field h x ''cyclePoint'')]) cps)"
    by (intro forOf_calls [where I = ?I]) (simp_all add: cyclePointBody_calls list_all_iff)
  then obtain cs1 h1 where 1: "forOf cyclePointBody cps (t @ [?root], h) =
        (Inr (), (t @ ?root # cs1, h1))" "?I h1"
    "map call_sig cs1 = map (\<lambda>x. (''addCyclePoint'', field h x ''cyclePoint'')) cps"
    by auto
  from ok(2) 1(2) have "\<exists>cs h'. forOf familyProxyBody fps (t @ ?root # cs1, h1) =
        (Inr (), ((t @ ?root # cs1) @ cs, h')) \<and> ?I h' \<and>
        map call_sig cs = concat (map (\<lambda>x. [(''addFamilyProxy'', field h x ''id'')]) fps)"
    by (intro forOf_calls [where I = ?I]) (simp_all add: familyProxyBody_calls list_all_iff)
  then obtain cs2 h2 where 2: "forOf familyProxyBody fps (t @ ?root # cs1, h1) =
        (Inr (), (t @ ?root # cs1 @ cs2, h2))" "?I h2"
    "map call_sig cs2 = map (\<lambda>x. (''addFamilyProxy'', field h x ''id'')) fps"
    by auto
  from ok(3) 2(2) have "\<exists>cs h'. forOf taskProxyBody tps (t @ ?root # cs1 @ cs2, h2) =
        (Inr (), ((t @ ?root # cs1 @ cs2) @ cs, h')) \<and> ?I h' \<and>
        map call_sig cs =
          concat (map (\<lambda>x. (''addTaskProxy'', field h x ''id'') #
                            map (\<lambda>j. (''addJob'', field h j ''id'')) (jobs_of h x)) tps)"
    by (intro forOf_calls [where I = ?I]) (simp_all add: taskProxyBody_calls list_all_iff)
  then obtain cs3 h3 where 3: "forOf taskProxyBody tps (t @ ?root # cs1 @ cs2, h2) =
        (Inr (), (t @ ?root # cs1 @ cs2 @ cs3, h3))" "?I h3"
    "map call_sig cs3 =
       concat (map (\<lambda>x. (''addTaskProxy'', field h x ''id'') #
                         map (\<lambda>j. (''addJob'', field h j ''id'')) (jobs_of h x)) tps)"
    by auto
  have "populateBody w (t, h) = (Inr (), (t @ (?root # cs1 @ cs2 @ cs3), h3))"
    unfolding populateBody_valid [OF i w rd(3-11)] using 1(1) 2(1) 3(1) by simp
  moreover have "map call_sig (?root # cs1 @ cs2 @ cs3) = expected_calls h w"
  proof -
    have "field h w ''id'' = i"
      using i by (simp add: field_def)
    with 1(3) 2(3) 3(3) show ?thesis
      by (simp add: expected_calls_def el call_sig_def)
  qed
  ultimately show ?thesis
    using 3(2) by blast
qed

text \<open>
  Claim C1, as stated, quantifies over every workflow record the validator accepts.
  The validator does not look at the elements of the arrays, and a factory throws a
  TypeError when it reads a field of \<^verbatim>\<open>null\<close>: on a workflow whose only cycle point
  is \<^verbatim>\<open>null\<close> the routine calls \<open>setWorkflow\<close> and then throws, so \<open>addCyclePoint\<close>
  is not called although \<^verbatim>\<open>cyclePoints\<close> has one element.
\<close>

theorem populate_calls_counterexample:
  "containsTreeData null_cycle_heap (JRef 0) = Inr (JBool True) \<and>
   elements null_cycle_heap (field null_cycle_heap (JRef 0) ''cyclePoints'') = [JNull] \<and>
   populateTreeFromGraphQLData (Some []) (JRef 0) null_cycle_heap =
     (Inl TypeError, Some [SetWorkflow example_workflow_node], null_cycle_heap)"
proof (intro conjI)
  show "containsTreeData null_cycle_heap (JRef 0) = Inr (JBool True)"
    by code_simp
  show "elements null_cycle_heap (field null_cycle_heap (JRef 0) ''cyclePoints'') = [JNull]"
    by code_simp
  show "populateTreeFromGraphQLData (Some []) (JRef 0) null_cycle_heap =
     (Inl TypeError, Some [SetWorkflow example_workflow_node], null_cycle_heap)"
    by (rule example_null_cycle)
qed

text \<open>
  Claim C1, amended. For every workflow record that the validator accepts and that is
  well formed (no element of \<^verbatim>\<open>cyclePoints\<close>, of \<^verbatim>\<open>familyProxies\<close> or of a
  \<^verbatim>\<open>jobs\<close> array is null or undefined, every element of \<^verbatim>\<open>taskProxies\<close> is an object,
  and a truthy \<^verbatim>\<open>jobs\<close> is iterable), \<open>populateTreeFromGraphQLData\<close> completes, and
  the calls it adds to the Tree Store are, in this order: \<open>setWorkflow\<close> once with
  the workflow, \<open>addCyclePoint\<close> once per element of \<^verbatim>\<open>cyclePoints\<close> in input order,
  \<open>addFamilyProxy\<close> once per element of \<^verbatim>\<open>familyProxies\<close> in input order, then for
  each task proxy in input order \<open>addTaskProxy\<close> once, immediately followed by
  \<open>addJob\<close> once per job of that task proxy in input order. Each call carries the
  node whose id is read from the corresponding record.
\<close>

theorem populate_calls:
  assumes "containsTreeData h w = Inr (JBool True)" and "well_formed h w"
  shows "\<exists>cs h'. populateTreeFromGraphQLData (Some t) w h = (Inr (), Some (t @ cs), h') \<and>
           map call_sig cs = expected_calls h w"
  using populateBody_calls [OF assms, of t] populate_valid [OF assms(1), of t]
  by auto

theorem populate_calls_witness:
  "containsTreeData example_heap (JRef 0) = Inr (JBool True) \<and>
   well_formed example_heap (JRef 0) \<and>
   expected_calls example_heap (JRef 0) =
     [(''setWorkflow'', JStr ''w1''), (''addCyclePoint'', JStr ''2024''),
      (''addFamilyProxy'', JStr ''f1''), (''addTaskProxy'', JStr ''t1''),
      (''addJob'', JStr ''j1'')] \<and>
   (\<exists>cs h'. populateTreeFromGraphQLData (Some [SetWorkflow example_workflow_node]) (JRef 0)
        example_heap = (Inr (), Some ([SetWorkflow example_workflow_node] @ cs), h') \<and>
      map call_sig cs =
        [(''setWorkflow'', JStr ''w1''), (''addCyclePoint'', JStr ''2024''),
         (''addFamilyProxy'', JStr ''f1''), (''addTaskProxy'', JStr ''t1''),
         (''addJob'', JStr ''j1'')])"
proof -
  have v: "containsTreeData example_heap (JRef 0) = Inr (JBool True)"
    by code_simp
  have wf: "well_formed example_heap (JRef 0)"
    by code_simp
  have e: "expected_calls example_heap (JRef 0) =
     [(''setWorkflow'', JStr ''w1''), (''addCyclePoint'', JStr ''2024''),
      (''addFamilyProxy'', JStr ''f1''), (''addTaskProxy'', JStr ''t1''),
      (''addJob'', JStr ''j1'')]"
    by code_simp
  from populate_calls [OF v wf, of "[SetWorkflow example_workflow_node]"] v wf e
  show ?thesis
    by simp
qed

section \<open>Defaulting of a missing state (claim C5)\<close>

lemma default_state_length [simp]: "length (default_state h a) = length h"
  by (simp add: default_state_def)

lemma default_state_self:
  "a < length h \<Longrightarrow> \<not> truthy (state_of (h ! a)) \<Longrightarrow>
   map_of (props (default_state h a ! a)) ''state'' = Some (JStr [])"
  by (simp add: default_state_def update_conv')

lemma default_state_other: "b \<noteq> a \<Longrightarrow> default_state h b ! a = h ! a"
  by (simp add: default_state_def)

lemma defaulted_stable:
  assumes "a < length h" and "map_of (props (h ! a)) ''state'' = Some (JStr [])"
  shows "map_of (props (default_state h b ! a)) ''state'' = Some (JStr [])"
proof (cases "b = a")
  case True
  from assms(2) have "\<not> truthy (state_of (h ! a))"
    by (simp add: state_of_def)
  with True assms(1) show ?thesis
    by (simp add: default_state_self)
next
  case False
  with assms(2) show ?thesis
    by (simp add: default_state_other)
qed

lemma taskProxyBody_defaulted_stable:
  assumes "taskProxyBody v (t, h) = (r, (t', h'))"
    and "a < length h \<and> map_of (props (h ! a)) ''state'' = Some (JStr [])"
  shows "a < length h' \<and> map_of (props (h' ! a)) ''state'' = Some (JStr [])"
  using taskProxyBody_heap [OF assms(1)] assms(2) by (auto simp: defaulted_stable)

lemma forOf_taskProxyBody_defaults:
  assumes "forOf taskProxyBody tps (t, h) = (Inr u, (t', h'))"
    and "JRef a \<in> set tps" and "a < length h" and "\<not> truthy (state_of (h ! a))"
  shows "map_of (props (h' ! a)) ''state'' = Some (JStr [])"
  using assms
proof (induction tps arbitrary: t h)
  case Nil
  then show ?case by simp
next
  case (Cons x xs)
  obtain r1 t1 h1 where b: "taskProxyBody x (t, h) = (r1, (t1, h1))"
    by (metis prod_cases3)
  with Cons.prems(1) have rest: "forOf taskProxyBody xs (t1, h1) = (Inr u, (t', h'))"
    by (cases r1) simp_all
  show ?case
  proof (cases "x = JRef a")
    case True
    with b have "h1 = default_state h a"
      by (auto dest: taskProxyBody_JRef_heap)
    with Cons.prems(3,4)
    have "a < length h1 \<and> map_of (props (h1 ! a)) ''state'' = Some (JStr [])"
      by (simp add: default_state_self)
    then have "a < length h' \<and> map_of (props (h' ! a)) ''state'' = Some (JStr [])"
    proof (rule forOf_preserves [where body = taskProxyBody and xs = xs and h = h1 and t = t1
            and I = "\<lambda>h. a < length h \<and> map_of (props (h ! a)) ''state'' = Some (JStr [])", rotated])
      show "forOf taskProxyBody xs (t1, h1) = (Inr u, (t', h'))"
        by (rule rest)
    qed (rule taskProxyBody_defaulted_stable)
    then show ?thesis
      by simp
  next
    case False
    with Cons.prems(2) have mem: "JRef a \<in> set xs"
      by simp
    have "length h1 = length h \<and> h1 ! a = h ! a"
      using taskProxyBody_heap [OF b]
    proof
      assume "h1 = h"
      then show ?thesis by simp
    next
      assume "\<exists>b. x = JRef b \<and> h1 = default_state h b"
      then obtain b where "x = JRef b" "h1 = default_state h b"
        by blast
      with False show ?thesis
        by (simp add: default_state_other)
    qed
    then have "length h1 = length h" "h1 ! a = h ! a"
      by simp_all
    with Cons.prems(3,4) Cons.IH [OF rest mem] show ?thesis
      by simp
  qed
qed

lemma createTaskProxyNode_defaults:
  assumes "a < length h" and "map_of (props (h ! a)) ''state'' = None"
  shows "\<exists>n h'. createTaskProxyNode h (JRef a) = Inr (n, h') \<and> nnode n = JRef a \<and>
            map_of (props (h' ! a)) ''state'' = Some (JStr '''')"
proof -

  from assms(2) have falsy: "\<not> truthy (state_of (h ! a))"
    by (simp add: state_of_def)
  obtain i where "getProp h (JRef a) ''id'' = Inr i"
    using getProp_total [of "JRef a"] by blast
  from createTaskProxyNode_JRef [OF this] assms(1) falsy
  show ?thesis
    by (simp add: default_state_self)
qed

lemma completed_run_defaults:
  assumes "a < length h" and "map_of (props (h ! a)) ''state'' = None"
    and run: "JRef a \<in> set (elements h (field h w ''taskProxies'')) \<and>
      populateTreeFromGraphQLData tree w h = (Inr (), tree', h')"
  shows "map_of (props (h' ! a)) ''state'' = Some (JStr '''')"
proof -
  from assms(2) have falsy: "\<not> truthy (state_of (h ! a))"
    by (simp add: state_of_def)
  from run have valid: "containsTreeData h w = Inr (JBool True)" and "\<exists>t. tree = Some t"
    using populate_Inr_valid [of tree w h "()" tree' h'] by simp_all
  then obtain t where tree: "tree = Some t"
    by blast
  from valid obtain b c f p cps fps tps where rd: "w = JRef b" "b < length h"
    "getProp h w ''cyclePoints'' = Inr c" "iterate h c = Inr cps" "val_ok (length h) c"
    "getProp h w ''familyProxies'' = Inr f" "iterate h f = Inr fps" "val_ok (length h) f"
    "getProp h w ''taskProxies'' = Inr p" "iterate h p = Inr tps" "val_ok (length h) p"
    by (rule containsTreeData_reads)
  obtain i where i: "getProp h w ''id'' = Inr i"
    using getProp_total [of w] rd(1) by auto
  from rd(1,2) have w: "val_ok (length h) w"
    by (simp add: val_ok_def)
  obtain t' where body: "populateBody w (t, h) = (Inr (), (t', h'))"
    using run populate_valid [OF valid, of t] unfolding tree
    by (auto split: prod.splits)
  let ?s0 = "(t @ [SetWorkflow (TNode i ''workflow'' w [] None None None)], h)"
  from body obtain u1 s1 where 1: "forOf cyclePointBody cps ?s0 = (Inr u1, s1)"
    and "bindS (forOf familyProxyBody fps) (\<lambda>_. forOf taskProxyBody tps) s1 = (Inr (), (t', h'))"
    unfolding populateBody_valid [OF i w rd(3-11)] by (rule bindS_Inr)
  then obtain u2 s2 where 2: "forOf familyProxyBody fps s1 = (Inr u2, s2)"
    and 3: "forOf taskProxyBody tps s2 = (Inr (), (t', h'))"
    by (auto elim: bindS_Inr)
  obtain t1 h1 t2 h2 where s: "s1 = (t1, h1)" "s2 = (t2, h2)"
    by (cases s1, cases s2) auto
  have "sim (length h) h h1"
    using 1 unfolding s
    by (rule forOf_sim_frame [where body = cyclePointBody, rotated]) (simp_all add: cyclePointBody_sim)
  moreover have "h2 = h1"
    using 2 unfolding s by (rule forOf_familyProxyBody_heap)
  ultimately have sim2: "sim (length h) h h2"
    by simp
  then have len: "a < length h2"
    using assms(1) by (simp add: sim_def)
  have "\<not> truthy (state_of (h2 ! a))"
    using state_sim(1) [OF sim2 assms(1)] falsy by simp
  moreover have "JRef a \<in> set tps"
    using run field_elements [OF rd(9,10)] by simp
  ultimately show ?thesis
    using forOf_taskProxyBody_defaults [OF 3 [unfolded s] _ len] by simp
qed


text \<open>
  Claim C5, as stated, speaks of every task-proxy record without a \<^verbatim>\<open>state\<close> in a
  workflow given to the routine. The routine reaches the task proxies only after the
  cycle points and the family proxies: on a workflow the validator accepts whose only
  cycle point is \<^verbatim>\<open>null\<close>, the routine throws before any task-proxy node is built, and
  the task-proxy record still has no \<^verbatim>\<open>state\<close> afterwards.
\<close>

theorem populate_missing_state_counterexample:
  "containsTreeData null_cycle_task_heap (JRef 0) = Inr (JBool True) \<and>
   JRef 4 \<in> set (elements null_cycle_task_heap
     (field null_cycle_task_heap (JRef 0) ''taskProxies'')) \<and>
   map_of (props (null_cycle_task_heap ! 4)) ''state'' = None \<and>
   populateTreeFromGraphQLData (Some []) (JRef 0) null_cycle_task_heap =
     (Inl TypeError,
      Some [SetWorkflow (TNode (JStr ''w1'') ''workflow'' (JRef 0) [] None None None)],
      null_cycle_task_heap) \<and>
   map_of (props (null_cycle_task_heap ! 4)) ''state'' \<noteq> Some (JStr '''')"
  by code_simp

text \<open>
  Claim C5, amended. For a task-proxy record on the heap that has no \<^verbatim>\<open>state\<close> field,
  \<open>createTaskProxyNode\<close> returns a node whose \<^verbatim>\<open>node\<close> is that record and sets the
  \<^verbatim>\<open>state\<close> of the record itself, on the heap, to the empty string. And for every
  workflow the validator accepts that is well formed and whose \<^verbatim>\<open>taskProxies\<close> contain
  such a record, \<open>populateTreeFromGraphQLData\<close> completes, and the record on the heap
  has \<^verbatim>\<open>state\<close> equal to the empty string afterwards.
\<close>

theorem populate_defaults_missing_state:
  assumes "a < length h" and "map_of (props (h ! a)) ''state'' = None"
  shows "(\<exists>n h'. createTaskProxyNode h (JRef a) = Inr (n, h') \<and> nnode n = JRef a \<and>
            map_of (props (h' ! a)) ''state'' = Some (JStr '''')) \<and>
         (containsTreeData h w = Inr (JBool True) \<and> well_formed h w \<and>
          JRef a \<in> set (elements h (field h w ''taskProxies'')) \<longrightarrow>
            (\<exists>tree' h'. populateTreeFromGraphQLData (Some t) w h = (Inr (), tree', h') \<and>
               map_of (props (h' ! a)) ''state'' = Some (JStr '''')))"
proof (intro conjI impI)
  show "\<exists>n h'. createTaskProxyNode h (JRef a) = Inr (n, h') \<and> nnode n = JRef a \<and>
            map_of (props (h' ! a)) ''state'' = Some (JStr '''')"
    using assms by (rule createTaskProxyNode_defaults)
  assume hyp: "containsTreeData h w = Inr (JBool True) \<and> well_formed h w \<and>
      JRef a \<in> set (elements h (field h w ''taskProxies''))"
  then have valid: "containsTreeData h w = Inr (JBool True)" and wf: "well_formed h w"
    and mem: "JRef a \<in> set (elements h (field h w ''taskProxies''))"
    by simp_all
  from populateBody_calls [OF valid wf, of t]
  obtain cs h' where "populateBody w (t, h) = (Inr (), (t @ cs, h'))"
    by blast
  then have run: "populateTreeFromGraphQLData (Some t) w h = (Inr (), Some (t @ cs), h')"
    by (simp add: populate_valid [OF valid])
  with mem have "map_of (props (h' ! a)) ''state'' = Some (JStr '''')"
    by (intro completed_run_defaults [OF assms, of w "Some t" "Some (t @ cs)" h']) simp
  with run show "\<exists>tree' h'. populateTreeFromGraphQLData (Some t) w h = (Inr (), tree', h') \<and>
               map_of (props (h' ! a)) ''state'' = Some (JStr '''')"
    by blast
qed

theorem populate_defaults_missing_state_witness:
  "6 < length example_heap \<and>
   map_of (props (example_heap ! 6)) ''state'' = None \<and>
   containsTreeData example_heap (JRef 0) = Inr (JBool True) \<and>
   well_formed example_heap (JRef 0) \<and>
   JRef 6 \<in> set (elements example_heap (field example_heap (JRef 0) ''taskProxies'')) \<and>
   populateTreeFromGraphQLData (Some []) (JRef 0) example_heap =
     (Inr (), Some example_calls, example_heap_final) \<and>
   (\<exists>n h'. createTaskProxyNode example_heap (JRef 6) = Inr (n, h') \<and> nnode n = JRef 6 \<and>
      map_of (props (h' ! 6)) ''state'' = Some (JStr '''')) \<and>
   map_of (props (example_heap_final ! 6)) ''state'' = Some (JStr '''')"
proof -
  have 1: "6 < length example_heap"
    and 2: "map_of (props (example_heap ! 6)) ''state'' = None"
    by code_simp+
  have 3: "containsTreeData example_heap (JRef 0) = Inr (JBool True)"
    and 4: "well_formed example_heap (JRef 0)"
    and 5: "JRef 6 \<in> set (elements example_heap (field example_heap (JRef 0) ''taskProxies''))"
    by code_simp+
  note inst = populate_defaults_missing_state [OF 1 2, of "JRef 0" "[]"]
  from inst 1 2 3 4 5 example_populate show ?thesis
    by auto
qed

section \<open>Two runs from related heaps (claim C9)\<close>

lemma closed_heap_upto:
  assumes "closed_heap h"
  shows "closed_upto (length h) h"
proof -
  have ok: "obj_ok (length h) (h ! a)" if "a < length h" for a
    using assms that by (simp add: closed_heap_def list_all_length)
  have "val_ok (length h) v" if "a < length h" "map_of (props (h ! a)) k = Some v" for a k v
  proof -
    from that(2) have "(k, v) \<in> set (props (h ! a))"
      by (rule map_of_SomeD)
    with ok [OF that(1)] show ?thesis
      by (auto simp: obj_ok_def list_all_iff)
  qed
  moreover have "list_all (val_ok (length h)) xs" if "a < length h" "elems (h ! a) = Some xs"
    for a xs
    using ok [OF that(1)] that(2) by (simp add: obj_ok_def)
  ultimately show ?thesis
    unfolding closed_upto_def by blast
qed

lemma closed_getProp:
  assumes "closed_upto n h" and "val_ok n v" and "getProp h v k = Inr x"
  shows "val_ok n x"
proof (cases v)
  case (JRef a)
  with assms(1,2) have "a < length h"
    and "\<And>v. map_of (props (h ! a)) k = Some v \<Longrightarrow> val_ok n v"
    by (auto simp: closed_upto_def val_ok_def)
  with assms(3) show ?thesis
    by (auto simp: JRef getProp.simps lookup_obj_def val_ok_def split: option.splits)
qed (use assms(3) in \<open>auto simp: getProp.simps val_ok_def\<close>)

lemma closed_iterate:
  assumes "closed_upto n h" and "val_ok n v" and "iterate h v = Inr xs"
  shows "list_all (val_ok n) xs"
proof (cases v)
  case (JRef a)
  with assms(1,2) have "a < length h"
    and "\<And>xs. elems (h ! a) = Some xs \<Longrightarrow> list_all (val_ok n) xs"
    by (auto simp: closed_upto_def val_ok_def)
  with assms(3) show ?thesis
    by (auto simp: JRef iterate.simps lookup_obj_def split: option.splits)
next
  case (JStr s)
  with assms(3) show ?thesis
    by (auto simp: iterate.simps list_all_iff val_ok_def)
qed (use assms(3) in \<open>auto simp: iterate.simps\<close>)

lemma truthy_not_undefined: "truthy v \<Longrightarrow> v \<noteq> JUndefined"
  by auto

lemma closed_sim:
  assumes c: "closed_upto n h" and s: "sim n h h'"
  shows "closed_upto n h'"
  unfolding closed_upto_def
proof (intro conjI allI impI)
  show "n \<le> length h'"
    using s by (simp add: sim_def)
  fix a
  assume a: "a < n"
  with s have so: "sim_obj (h ! a) (h' ! a)"
    by (simp add: sim_def)
  show "list_all (val_ok n) xs" if "elems (h' ! a) = Some xs" for xs
    using that c a sim_objD(1) [OF so] by (simp add: closed_upto_def)
  show "val_ok n v" if m: "map_of (props (h' ! a)) k = Some v" for k v
  proof (cases "k = ''state''")
    case False
    with m c a sim_objD(2) [OF so False] show ?thesis
      by (simp add: closed_upto_def)
  next
    case True
    show ?thesis
    proof (cases "truthy v")
      case False
      then show ?thesis
        by (cases v) (simp_all add: val_ok_def)
    next
      case tv: True
      from m True have sv: "state_of (h' ! a) = v"
        by (simp add: state_of_def)
      with tv sim_objD(4) [OF so] have "state_of (h ! a) = v"
        by simp
      with tv have "map_of (props (h ! a)) ''state'' = Some v"
        by (auto simp: state_of_def split: option.splits)
      with c a show ?thesis
        by (simp add: closed_upto_def)
    qed
  qed
qed

lemma heap_rel_step:
  assumes "heap_rel n hA hB" and "sim n hA hA'" and "sim n hB hB'"
  shows "heap_rel n hA' hB'"
proof -
  from assms have "sim n hA' hB'"
    unfolding heap_rel_def by (blast intro: sim_sym sim_trans)
  with assms show ?thesis
    unfolding heap_rel_def by (blast intro: closed_sim)
qed

lemma heap_relD:
  assumes "heap_rel n hA hB"
  shows "sim n hA hB" and "closed_upto n hA" and "closed_upto n hB"
    and "n \<le> length hA" and "n \<le> length hB"
  using assms by (simp_all add: heap_rel_def sim_def)

lemma run_rel_throw:
  "R hA hB \<Longrightarrow> run_rel R tA tB (Inl e, (tA, hA)) (Inl e, (tB, hB))"
  by (simp add: run_rel_def)

lemma run_rel_call:
  assumes "R hA hB" and "call_ids cA = call_ids cB"
  shows "run_rel R tA tB (Inr (), (tA @ [cA], hA)) (Inr (), (tB @ [cB], hB))"
  unfolding run_rel_def using assms by simp

lemma run_rel_after:
  assumes "run_rel R (tA @ csA) (tB @ csB) resA resB" and "map call_ids csA = map call_ids csB"
  shows "run_rel R tA tB resA resB"
proof -
  from assms(1) obtain dsA dsB where "fst resA = fst resB" "R (snd (snd resA)) (snd (snd resB))"
    "fst (snd resA) = (tA @ csA) @ dsA" "fst (snd resB) = (tB @ csB) @ dsB"
    "map call_ids dsA = map call_ids dsB"
    unfolding run_rel_def by blast
  with assms(2) have "fst (snd resA) = tA @ (csA @ dsA)" "fst (snd resB) = tB @ (csB @ dsB)"
    "map call_ids (csA @ dsA) = map call_ids (csB @ dsB)"
    by simp_all
  with \<open>fst resA = fst resB\<close> \<open>R (snd (snd resA)) (snd (snd resB))\<close> show ?thesis
    unfolding run_rel_def by blast
qed

lemma run_relE:
  assumes "run_rel R tA tB (rA, (tA', hA')) (rB, (tB', hB'))"
  obtains csA csB where "rA = rB" "R hA' hB'" "tA' = tA @ csA" "tB' = tB @ csB"
    "map call_ids csA = map call_ids csB"
  using assms unfolding run_rel_def by auto

lemma forOf_rel:
  assumes "\<And>x tA hA tB hB. x \<in> set xs \<Longrightarrow> R hA hB \<Longrightarrow>
      run_rel R tA tB (body x (tA, hA)) (body x (tB, hB))"
    and "R hA hB"
  shows "run_rel R tA tB (forOf body xs (tA, hA)) (forOf body xs (tB, hB))"
  using assms
proof (induction xs arbitrary: tA hA tB hB)
  case Nil
  then show ?case
    by (simp add: run_rel_def)
next
  case (Cons x xs)
  obtain rA tA1 hA1 rB tB1 hB1 where b: "body x (tA, hA) = (rA, (tA1, hA1))"
    "body x (tB, hB) = (rB, (tB1, hB1))"
    by (metis prod_cases3)
  from Cons.prems(1) [of x hA hB tA tB] Cons.prems(2)
  have "run_rel R tA tB (rA, (tA1, hA1)) (rB, (tB1, hB1))"
    unfolding b by simp
  then obtain csA csB where 1: "rA = rB" "R hA1 hB1" "tA1 = tA @ csA" "tB1 = tB @ csB"
    "map call_ids csA = map call_ids csB"
    by (rule run_relE)
  show ?case
  proof (cases rA)
    case (Inl e)
    with 1(1) have "rB = Inl e"
      by simp
    with b 1 Inl show ?thesis
      by (simp add: run_rel_def)
  next
    case (Inr u)
    with 1(1) have rB: "rB = Inr u"
      by simp
    have "run_rel R (tA @ csA) (tB @ csB) (forOf body xs (tA @ csA, hA1))
        (forOf body xs (tB @ csB, hB1))"
      using Cons.prems(1) 1(2) by (intro Cons.IH) simp_all
    then have "run_rel R tA tB (forOf body xs (tA @ csA, hA1)) (forOf body xs (tB @ csB, hB1))"
      using 1(5) by (rule run_rel_after)
    with b 1 Inr rB show ?thesis
      by simp
  qed
qed

lemma bindS_rel:
  assumes "run_rel R tA tB (m (tA, hA)) (m (tB, hB))"
    and "\<And>tA hA tB hB. R hA hB \<Longrightarrow> run_rel R tA tB (m' (tA, hA)) (m' (tB, hB))"
  shows "run_rel R tA tB (bindS m (\<lambda>_. m') (tA, hA)) (bindS m (\<lambda>_. m') (tB, hB))"
proof -
  obtain rA tA1 hA1 rB tB1 hB1 where b: "m (tA, hA) = (rA, (tA1, hA1))"
    "m (tB, hB) = (rB, (tB1, hB1))"
    by (metis prod_cases3)
  from assms(1) obtain csA csB where 1: "rA = rB" "R hA1 hB1" "tA1 = tA @ csA" "tB1 = tB @ csB"
    "map call_ids csA = map call_ids csB"
    unfolding b by (rule run_relE)
  show ?thesis
  proof (cases rA)
    case (Inl e)
    with 1(1) have "rB = Inl e"
      by simp
    with b 1 Inl show ?thesis
      by (simp add: run_rel_def bindS_def)
  next
    case (Inr u)
    with 1(1) have rB: "rB = Inr u"
      by simp
    have "run_rel R (tA @ csA) (tB @ csB) (m' (tA @ csA, hA1)) (m' (tB @ csB, hB1))"
      using 1(2) by (rule assms(2))
    then have "run_rel R tA tB (m' (tA @ csA, hA1)) (m' (tB @ csB, hB1))"
      using 1(5) by (rule run_rel_after)
    with b 1 Inr rB show ?thesis
      by (simp add: bindS_def)
  qed
qed

lemma heap_rel_append:
  assumes "heap_rel n hA hB"
  shows "heap_rel n (hA @ xs) (hB @ ys)"
  using assms heap_relD(4,5) [OF assms] by (blast intro: heap_rel_step sim_append)

lemma call_ids_simps [simp]:
  "call_ids (SetWorkflow (TNode i ty nd [] sz st lm)) = (''setWorkflow'', [i])"
  "call_ids (AddCyclePoint (TNode i ty nd [] sz st lm)) = (''addCyclePoint'', [i])"
  "call_ids (AddFamilyProxy (TNode i ty nd [] sz st lm)) = (''addFamilyProxy'', [i])"
  "call_ids (AddTaskProxy (TNode i ty nd [] sz st lm)) = (''addTaskProxy'', [i])"
  by (simp_all add: call_ids_def)

lemma cyclePointBody_rel:
  assumes "heap_rel n hA hB" and "val_ok n x"
  shows "run_rel (heap_rel n) tA tB (cyclePointBody x (tA, hA)) (cyclePointBody x (tB, hB))"
proof -
  have eq: "getProp hB x ''cyclePoint'' = getProp hA x ''cyclePoint''"
    using heap_relD(1) [OF assms(1)] assms(2) by (rule getProp_sim) simp
  show ?thesis
  proof (cases "getProp hA x ''cyclePoint''")
    case (Inl e)
    with eq assms(1) show ?thesis
      by (simp add: cyclePointBody_cases run_rel_throw)
  next
    case (Inr c)
    with eq heap_rel_append [OF assms(1)] show ?thesis
      by (simp add: cyclePointBody_cases run_rel_call)
  qed
qed

lemma familyProxyBody_rel:
  assumes "heap_rel n hA hB" and "val_ok n x"
  shows "run_rel (heap_rel n) tA tB (familyProxyBody x (tA, hA)) (familyProxyBody x (tB, hB))"
proof -
  have eq: "getProp hB x ''id'' = getProp hA x ''id''"
    using heap_relD(1) [OF assms(1)] assms(2) by (rule getProp_sim) simp
  show ?thesis
  proof (cases "getProp hA x ''id''")
    case (Inl e)
    with eq assms(1) show ?thesis
      by (simp add: familyProxyBody_cases run_rel_throw)
  next
    case (Inr c)
    with eq assms(1) show ?thesis
      by (simp add: familyProxyBody_cases run_rel_call)
  qed
qed

lemma jobBody_explicit:
  "jobBody tp x (t, h) =
     (case getProp h tp ''latestMessage'' of
        Inl e \<Rightarrow> (Inl e, (t, h))
      | Inr m \<Rightarrow>
          (case getProp h x ''id'' of
             Inl e \<Rightarrow> (Inl e, (t, h))
           | Inr i \<Rightarrow>
               (Inr (),
                (t @ [AddJob (TNode i ''job'' x
                        [TNode (JStr (toStringJS h i @ ''-details'')) ''job-details'' x []
                           (Some (TREE_ITEM_SIZE * length JOB_DETAIL_NODE_PROPERTIES))
                           (Some False) None]
                        (Some TREE_ITEM_SIZE) (Some False)
                        (Some (if m = JUndefined then JStr [] else m)))], h))))"
  by (simp add: jobBody_cases createJobNode_def Let_def split: sum.splits)

lemma toStr_sim:
  assumes "sim n hA hB" and "closed_upto n hA"
  shows "val_ok n v \<Longrightarrow> toStr hB joining v = toStr hA joining v"
  using assms
proof (induction hA joining v rule: toStr.induct)
  case (6 h joining a)
  from "6.prems" have a: "a < n" "a < length h" "a < length hB"
    and so: "sim_obj (h ! a) (hB ! a)"
    by (auto simp: val_ok_def sim_def)
  then have el: "elems (hB ! a) = elems (h ! a)"
    by (simp add: sim_objD(1))
  show ?case
  proof (cases "elems (h ! a)")
    case None
    with a el show ?thesis
      by (simp add: lookup_obj_def)
  next
    case (Some xs)
    have ok: "list_all (val_ok n) xs"
      using "6.prems"(3) a(1) Some by (simp add: closed_upto_def)
    show ?thesis
    proof (cases "a \<in> set joining")
      case True
      with a el Some show ?thesis
        by (simp add: lookup_obj_def)
    next
      case False
      have "toStr hB (a # joining) x = toStr h (a # joining) x"
        if "x \<in> set xs" "\<not> (x = JUndefined \<or> x = JNull)" for x
      proof (rule "6.IH" [OF _ Some False that])
        show "lookup_obj h a = Some (h ! a)"
          using a by (simp add: lookup_obj_def)
        show "val_ok n x"
          using ok that(1) by (simp add: list_all_iff)
      qed (use "6.prems" in simp_all)
      then have m: "map (\<lambda>x. if x = JUndefined \<or> x = JNull then []
                             else toStr hB (a # joining) x) xs =
          map (\<lambda>x. if x = JUndefined \<or> x = JNull then []
                             else toStr h (a # joining) x) xs"
        by (intro map_cong) auto
      have "toStr hB joining (JRef a) =
          join_comma (map (\<lambda>x. if x = JUndefined \<or> x = JNull then []
                             else toStr hB (a # joining) x) xs)"
        using a el Some False by (simp add: lookup_obj_def)
      moreover have "toStr h joining (JRef a) =
          join_comma (map (\<lambda>x. if x = JUndefined \<or> x = JNull then []
                             else toStr h (a # joining) x) xs)"
        using a Some False by (simp add: lookup_obj_def)
      ultimately show ?thesis
        by (simp only: m)
    qed
  qed
qed simp_all

lemma toStringJS_rel:
  assumes "heap_rel n hA hB" and "val_ok n v"
  shows "toStringJS hB v = toStringJS hA v"
  unfolding toStringJS_def
  using heap_relD(1,2) [OF assms(1)] assms(2) by (rule toStr_sim)

lemma jobBody_rel:
  assumes "heap_rel n hA hB" and "val_ok n tp" and "val_ok n x"
  shows "run_rel (heap_rel n) tA tB (jobBody tp x (tA, hA)) (jobBody tp x (tB, hB))"
proof -
  have eq: "getProp hB tp ''latestMessage'' = getProp hA tp ''latestMessage''"
    "getProp hB x ''id'' = getProp hA x ''id''"
    using heap_relD(1) [OF assms(1)] assms(2,3) by (simp_all add: getProp_sim)
  have pr: "toStringJS hB i = toStringJS hA i" if "getProp hA x ''id'' = Inr i" for i
    using assms(1) closed_getProp [OF heap_relD(2) [OF assms(1)] assms(3) that]
    by (rule toStringJS_rel)
  show ?thesis
    unfolding jobBody_explicit eq using assms(1) pr
    by (auto simp: run_rel_throw run_rel_call call_ids_def split: sum.splits)
qed

lemma taskProxyBody_rel:
  assumes hr: "heap_rel n hA hB" and x: "val_ok n x"
  shows "run_rel (heap_rel n) tA tB (taskProxyBody x (tA, hA)) (taskProxyBody x (tB, hB))"
proof (cases "\<exists>a. x = JRef a")
  case False
  with hr show ?thesis
    by (simp add: taskProxyBody_not_ref run_rel_throw)
next
  case True
  then obtain a where xa: "x = JRef a"
    by blast
  let ?hA = "default_state hA a" and ?hB = "default_state hB a"
  have hr2: "heap_rel n ?hA ?hB"
    using hr heap_relD(4,5) [OF hr] by (blast intro: heap_rel_step sim_default_state)
  obtain i j where i: "getProp hA x ''id'' = Inr i" and j: "getProp ?hA x ''jobs'' = Inr j"
    using getProp_total [of x] xa by (metis jsval.distinct(9) jsval.distinct(17))
  have iB: "getProp hB x ''id'' = Inr i"
    using i getProp_sim [OF heap_relD(1) [OF hr] x, of "''id''"] by simp
  have jB: "getProp ?hB x ''jobs'' = Inr j"
    using j getProp_sim [OF heap_relD(1) [OF hr2] x, of "''jobs''"] by simp
  have jv: "val_ok n j"
    using heap_relD(2) [OF hr2] x j by (rule closed_getProp)
  have it: "iterate ?hB j = iterate ?hA j"
    using heap_relD(1) [OF hr2] jv by (rule iterate_sim)
  let ?n = "TNode i ''task-proxy'' (JRef a) [] (Some TREE_ITEM_SIZE) (Some False) None"
  note bodyA = taskProxyBody_JRef [OF i [unfolded xa] j [unfolded xa], of tA]
  note bodyB = taskProxyBody_JRef [OF iB [unfolded xa] jB [unfolded xa], of tB]
  show ?thesis
  proof (cases "truthy j")
    case False
    with bodyA bodyB hr2 show ?thesis
      unfolding xa by (simp add: run_rel_call)
  next
    case tj: True
    show ?thesis
    proof (cases "iterate ?hA j")
      case (Inl e)
      have "run_rel (heap_rel n) (tA @ [AddTaskProxy ?n]) (tB @ [AddTaskProxy ?n])
          (Inl e, (tA @ [AddTaskProxy ?n], ?hA)) (Inl e, (tB @ [AddTaskProxy ?n], ?hB))"
        using hr2 by (rule run_rel_throw)
      then have "run_rel (heap_rel n) tA tB
          (Inl e, (tA @ [AddTaskProxy ?n], ?hA)) (Inl e, (tB @ [AddTaskProxy ?n], ?hB))"
        by (rule run_rel_after) simp
      with bodyA bodyB tj Inl it show ?thesis
        unfolding xa by simp
    next
      case (Inr js)
      have "list_all (val_ok n) js"
        using heap_relD(2) [OF hr2] jv Inr by (rule closed_iterate)
      then have "run_rel (heap_rel n) (tA @ [AddTaskProxy ?n]) (tB @ [AddTaskProxy ?n])
          (forOf (jobBody x) js (tA @ [AddTaskProxy ?n], ?hA))
          (forOf (jobBody x) js (tB @ [AddTaskProxy ?n], ?hB))"
        using hr2 x by (intro forOf_rel) (simp_all add: jobBody_rel list_all_iff)
      then have "run_rel (heap_rel n) tA tB
          (forOf (jobBody x) js (tA @ [AddTaskProxy ?n], ?hA))
          (forOf (jobBody x) js (tB @ [AddTaskProxy ?n], ?hB))"
        by (rule run_rel_after) simp
      with bodyA bodyB tj Inr it show ?thesis
        unfolding xa by simp
    qed
  qed
qed

lemma isArray_sim:
  assumes "sim n h h'" and "val_ok n v"
  shows "isArray h' v = isArray h v"
proof (cases v)
  case (JRef a)
  with assms have "a < length h" "a < length h'" "sim_obj (h ! a) (h' ! a)"
    by (auto simp: sim_def val_ok_def)
  then show ?thesis
    by (simp add: JRef lookup_obj_def sim_objD(1))
qed simp_all

lemma containsTreeData_sim:
  assumes valid: "containsTreeData h w = Inr (JBool True)" and s: "sim (length h) h h'"
  shows "containsTreeData h' w = Inr (JBool True)"
proof -
  from valid obtain b c f p cps fps tps where rd: "w = JRef b" "b < length h"
    "getProp h w ''cyclePoints'' = Inr c" "iterate h c = Inr cps" "val_ok (length h) c"
    "getProp h w ''familyProxies'' = Inr f" "iterate h f = Inr fps" "val_ok (length h) f"
    "getProp h w ''taskProxies'' = Inr p" "iterate h p = Inr tps" "val_ok (length h) p"
    by (rule containsTreeData_reads)
  from rd(1,2) have w: "val_ok (length h) w"
    by (simp add: val_ok_def)
  from valid containsTreeData_cases [of h w] have "spec_containsTreeData h w"
    by auto
  then have "isArray h c" "isArray h f" "isArray h p"
    using rd by (auto simp: spec_containsTreeData_def getProp_field)
  then have "isArray h' c" "isArray h' f" "isArray h' p"
    using rd s by (simp_all add: isArray_sim)
  moreover have "getProp h' w ''cyclePoints'' = Inr c" "getProp h' w ''familyProxies'' = Inr f"
    "getProp h' w ''taskProxies'' = Inr p"
    using rd s w by (simp_all add: getProp_sim)
  ultimately have "spec_containsTreeData h' w"
    using rd(1) by (auto simp: spec_containsTreeData_def getProp_field)
  with containsTreeData_cases [of h' w] show ?thesis
    by auto
qed

lemma bindS_sim_frame:
  assumes "bindS m f s = (r, s')"
    and "\<And>r1 s1. m s = (r1, s1) \<Longrightarrow> sim n (snd s) (snd s1)"
    and "\<And>v s1. m s = (Inr v, s1) \<Longrightarrow> f v s1 = (r, s') \<Longrightarrow> sim n (snd s1) (snd s')"
  shows "sim n (snd s) (snd s')"
proof -
  obtain r1 s1 where m: "m s = (r1, s1)"
    by (cases "m s")
  show ?thesis
  proof (cases r1)
    case (Inl e)
    with m assms(1) have "s' = s1"
      by (simp add: bindS_def)
    with assms(2) [OF m] show ?thesis
      by simp
  next
    case (Inr v)
    with m assms(1) have "f v s1 = (r, s')"
      by (simp add: bindS_def)
    with assms(2) [OF m] assms(3) [of v s1] m Inr show ?thesis
      by (blast intro: sim_trans)
  qed
qed

lemma loops_sim_frame:
  assumes "bindS (forOf cyclePointBody cps) (\<lambda>_.
      bindS (forOf familyProxyBody fps) (\<lambda>_. forOf taskProxyBody tps)) (t, h) = (r, (t', h'))"
    and "n \<le> length h"
  shows "sim n h h'"
proof -
  have c: "sim n h1 h2" if "forOf cyclePointBody cps (t1, h1) = (r1, (t2, h2))" "n \<le> length h1"
    for t1 h1 r1 t2 h2
    using that by (rule forOf_sim_frame [where body = cyclePointBody, rotated]) (rule cyclePointBody_sim)
  have f: "sim n h1 h2" if "forOf familyProxyBody fps (t1, h1) = (r1, (t2, h2))" "n \<le> length h1"
    for t1 h1 r1 t2 h2
    using that by (auto dest: forOf_familyProxyBody_heap intro: sim_refl)
  have p: "sim n h1 h2" if "forOf taskProxyBody tps (t1, h1) = (r1, (t2, h2))" "n \<le> length h1"
    for t1 h1 r1 t2 h2
    using that by (rule forOf_sim_frame [where body = taskProxyBody, rotated]) (rule taskProxyBody_sim)
  have "sim n (snd (t, h)) (snd (t', h'))"
  proof (rule bindS_sim_frame [OF assms(1)])
    show "sim n (snd (t, h)) (snd s1)" if "forOf cyclePointBody cps (t, h) = (r1, s1)" for r1 s1
      using c [of t h r1 "fst s1" "snd s1"] that assms(2) by simp
    show "sim n (snd s1) (snd (t', h'))"
      if 1: "forOf cyclePointBody cps (t, h) = (Inr v, s1)"
        and 2: "bindS (forOf familyProxyBody fps) (\<lambda>_. forOf taskProxyBody tps) s1 = (r, (t', h'))"
      for v s1
    proof -
      have "sim n h (snd s1)"
        using c [of t h "Inr v" "fst s1" "snd s1"] 1 assms(2) by simp
      then have len1: "n \<le> length (snd s1)"
        by (simp add: sim_def)
      show ?thesis
      proof (rule bindS_sim_frame [OF 2])
        show "sim n (snd s1) (snd s2)" if "forOf familyProxyBody fps s1 = (r2, s2)" for r2 s2
          using f [of "fst s1" "snd s1" r2 "fst s2" "snd s2"] that len1 by simp
        show "sim n (snd s2) (snd (t', h'))"
          if 3: "forOf familyProxyBody fps s1 = (Inr u, s2)"
            and 4: "forOf taskProxyBody tps s2 = (r, (t', h'))" for u s2
        proof -
          have "sim n (snd s1) (snd s2)"
            using f [of "fst s1" "snd s1" "Inr u" "fst s2" "snd s2"] 3 len1 by simp
          then have "n \<le> length (snd s2)"
            by (simp add: sim_def)
          with p [of "fst s2" "snd s2" r t' h'] 4 show ?thesis
            by simp
        qed
      qed
    qed
  qed
  then show ?thesis
    by simp
qed

lemma populate_rejects:
  assumes "containsTreeData h w \<noteq> Inr (JBool True)"
  shows "populateTreeFromGraphQLData tree w h = (Inl invalid_data, tree, h)"
proof -
  from assms containsTreeData_cases [of h w]
  obtain v where "containsTreeData h w = Inr v" "\<not> truthy v"
    by auto
  then show ?thesis
    by (cases tree) (simp_all add: populateTreeFromGraphQLData_def)
qed

lemma val_ok_mono: "val_ok n v \<Longrightarrow> n \<le> m \<Longrightarrow> val_ok m v"
  by (cases v) (simp_all add: val_ok_def)

lemma loops_rel:
  assumes "heap_rel n hA hB" and "list_all (val_ok n) cps" and "list_all (val_ok n) fps"
    and "list_all (val_ok n) tps"
  shows "run_rel (heap_rel n) tA tB
     (bindS (forOf cyclePointBody cps) (\<lambda>_.
        bindS (forOf familyProxyBody fps) (\<lambda>_. forOf taskProxyBody tps)) (tA, hA))
     (bindS (forOf cyclePointBody cps) (\<lambda>_.
        bindS (forOf familyProxyBody fps) (\<lambda>_. forOf taskProxyBody tps)) (tB, hB))"
proof (rule bindS_rel)
  show "run_rel (heap_rel n) tA tB (forOf cyclePointBody cps (tA, hA))
      (forOf cyclePointBody cps (tB, hB))"
    using assms(1,2) by (intro forOf_rel) (simp_all add: cyclePointBody_rel list_all_iff)
  show "run_rel (heap_rel n) tA tB
      (bindS (forOf familyProxyBody fps) (\<lambda>_. forOf taskProxyBody tps) (tA, hA))
      (bindS (forOf familyProxyBody fps) (\<lambda>_. forOf taskProxyBody tps) (tB, hB))"
    if "heap_rel n hA hB" for tA hA tB hB
  proof (rule bindS_rel)
    show "run_rel (heap_rel n) tA tB (forOf familyProxyBody fps (tA, hA))
        (forOf familyProxyBody fps (tB, hB))"
      using that assms(3) by (intro forOf_rel) (simp_all add: familyProxyBody_rel list_all_iff)
    show "run_rel (heap_rel n) tA tB (forOf taskProxyBody tps (tA, hA))
        (forOf taskProxyBody tps (tB, hB))"
      if "heap_rel n hA hB" for tA hA tB hB
      using that assms(4) by (intro forOf_rel) (simp_all add: taskProxyBody_rel list_all_iff)
  qed
qed

lemma populate_twice:
  assumes closed: "closed_heap h"
    and run1: "populateTreeFromGraphQLData (Some t1) w h = (r1, tree1, h1)"
    and run2: "populateTreeFromGraphQLData (Some t2) w h1 = (r2, tree2, h2)"
  shows "r2 = r1 \<and>
         (\<exists>cs1 cs2. tree1 = Some (t1 @ cs1) \<and> tree2 = Some (t2 @ cs2) \<and>
            map call_ids cs2 = map call_ids cs1)"
proof (cases "containsTreeData h w = Inr (JBool True)")
  case False
  with run1 have "r1 = Inl invalid_data" "tree1 = Some t1" "h1 = h"
    by (simp_all add: populate_rejects)
  moreover from this False run2 have "r2 = Inl invalid_data" "tree2 = Some t2"
    by (simp_all add: populate_rejects)
  ultimately show ?thesis
    by simp
next
  case valid: True
  let ?n = "length h"
  from valid obtain b c f p cps fps tps where rd: "w = JRef b" "b < length h"
    "getProp h w ''cyclePoints'' = Inr c" "iterate h c = Inr cps" "val_ok ?n c"
    "getProp h w ''familyProxies'' = Inr f" "iterate h f = Inr fps" "val_ok ?n f"
    "getProp h w ''taskProxies'' = Inr p" "iterate h p = Inr tps" "val_ok ?n p"
    by (rule containsTreeData_reads)
  obtain i where i: "getProp h w ''id'' = Inr i"
    using getProp_total [of w] rd(1) by auto
  from rd(1,2) have w: "val_ok ?n w"
    by (simp add: val_ok_def)
  let ?root = "SetWorkflow (TNode i ''workflow'' w [] None None None)"
  let ?loops = "bindS (forOf cyclePointBody cps) (\<lambda>_.
      bindS (forOf familyProxyBody fps) (\<lambda>_. forOf taskProxyBody tps))"
  obtain t1' where tree1: "tree1 = Some t1'" and body1: "populateBody w (t1, h) = (r1, (t1', h1))"
    using run1 unfolding populate_valid [OF valid] by (auto split: prod.splits)
  then have loops1: "?loops (t1 @ [?root], h) = (r1, (t1', h1))"
    unfolding populateBody_valid [OF i w rd(3-11)] by simp
  then have sim1: "sim ?n h h1"
    by (rule loops_sim_frame) simp
  then have len1: "?n \<le> length h1"
    by (simp add: sim_def)
  have valid1: "containsTreeData h1 w = Inr (JBool True)"
    using valid sim1 by (rule containsTreeData_sim)
  have rd1: "getProp h1 w ''id'' = Inr i" "val_ok (length h1) w"
    "getProp h1 w ''cyclePoints'' = Inr c" "iterate h1 c = Inr cps" "val_ok (length h1) c"
    "getProp h1 w ''familyProxies'' = Inr f" "iterate h1 f = Inr fps" "val_ok (length h1) f"
    "getProp h1 w ''taskProxies'' = Inr p" "iterate h1 p = Inr tps" "val_ok (length h1) p"
    using i w rd sim1 len1 by (simp_all add: getProp_sim iterate_sim val_ok_mono)
  obtain t2' where tree2: "tree2 = Some t2'" and body2: "populateBody w (t2, h1) = (r2, (t2', h2))"
    using run2 unfolding populate_valid [OF valid1] by (auto split: prod.splits)
  then have loops2: "?loops (t2 @ [?root], h1) = (r2, (t2', h2))"
    unfolding populateBody_valid [OF rd1] by simp
  have cl: "closed_upto ?n h"
    using closed by (rule closed_heap_upto)
  then have hr: "heap_rel ?n h h1"
    using sim1 by (simp add: heap_rel_def closed_sim)
  have "list_all (val_ok ?n) cps" "list_all (val_ok ?n) fps" "list_all (val_ok ?n) tps"
    using cl rd by (auto intro: closed_iterate)
  with hr have "run_rel (heap_rel ?n) (t1 @ [?root]) (t2 @ [?root])
      (?loops (t1 @ [?root], h)) (?loops (t2 @ [?root], h1))"
    by (rule loops_rel)
  then have "run_rel (heap_rel ?n) t1 t2 (r1, (t1', h1)) (r2, (t2', h2))"
    unfolding loops1 loops2 by (rule run_rel_after) simp
  then obtain cs1 cs2 where "r1 = r2" "t1' = t1 @ cs1" "t2' = t2 @ cs2"
    "map call_ids cs1 = map call_ids cs2"
    by (rule run_relE)
  with tree1 tree2 show ?thesis
    by simp
qed

text \<open>
  Claim C9. Run \<open>populateTreeFromGraphQLData\<close> on a workflow, and run it again on
  the same workflow in the heap the first run left, where the states the first run
  defaulted are now present. The two runs end alike (both complete, or both throw the
  same error), and the calls they add to their Tree Stores carry, call by call, the
  same operation and the same node ids, those of the job-details children included.
  The heap is assumed closed: every reference stored in it refers to one of its
  objects.
\<close>

theorem populate_deterministic_ids:
  assumes "closed_heap h"
    and "populateTreeFromGraphQLData (Some t1) w h = (r1, tree1, h1)"
    and "populateTreeFromGraphQLData (Some t2) w h1 = (r2, tree2, h2)"
  shows "r2 = r1 \<and>
         (\<exists>cs1 cs2. tree1 = Some (t1 @ cs1) \<and> tree2 = Some (t2 @ cs2) \<and>
            map call_ids cs2 = map call_ids cs1 \<and>
            concat (map (node_ids \<circ> call_node) cs2) = concat (map (node_ids \<circ> call_node) cs1))"
proof -
  from populate_twice [OF assms] obtain cs1 cs2 where r: "r2 = r1"
    and t: "tree1 = Some (t1 @ cs1)" "tree2 = Some (t2 @ cs2)"
    and ids: "map call_ids cs2 = map call_ids cs1"
    by blast
  from ids have "map (snd \<circ> call_ids) cs2 = map (snd \<circ> call_ids) cs1"
    by (metis map_map)
  moreover have "snd \<circ> call_ids = node_ids \<circ> call_node"
    by (rule ext) (simp add: call_ids_def)
  ultimately have "concat (map (node_ids \<circ> call_node) cs2) = concat (map (node_ids \<circ> call_node) cs1)"
    by simp
  with r t ids show ?thesis
    by blast
qed

theorem populate_deterministic_ids_witness:
  "closed_heap example_heap \<and>
   populateTreeFromGraphQLData (Some []) (JRef 0) example_heap =
     (Inr (), Some example_calls, example_heap_final) \<and>
   map_of (props (example_heap ! 6)) ''state'' = None \<and>
   map_of (props (example_heap_final ! 6)) ''state'' = Some (JStr '''') \<and>
   (\<exists>r2 tree2 h2 cs2.
      populateTreeFromGraphQLData (Some []) (JRef 0) example_heap_final = (r2, tree2, h2) \<and>
      r2 = Inr () \<and> tree2 = Some cs2 \<and>
      concat (map (node_ids \<circ> call_node) cs2) =
        [JStr ''w1'', JStr ''2024'', JStr ''f1'', JStr ''t1'', JStr ''j1'', JStr ''j1-details''])"
proof -
  have c: "closed_heap example_heap"
    by code_simp
  have s: "map_of (props (example_heap ! 6)) ''state'' = None"
    "map_of (props (example_heap_final ! 6)) ''state'' = Some (JStr '''')"
    by code_simp+
  have ids: "concat (map (node_ids \<circ> call_node) example_calls) =
      [JStr ''w1'', JStr ''2024'', JStr ''f1'', JStr ''t1'', JStr ''j1'', JStr ''j1-details'']"
    by code_simp
  obtain r2 tree2 h2 where run2:
    "populateTreeFromGraphQLData (Some []) (JRef 0) example_heap_final = (r2, tree2, h2)"
    by (metis prod_cases3)
  from populate_deterministic_ids [OF c example_populate run2] ids
  have "r2 = Inr () \<and> (\<exists>cs2. tree2 = Some cs2 \<and>
      concat (map (node_ids \<circ> call_node) cs2) =
        [JStr ''w1'', JStr ''2024'', JStr ''f1'', JStr ''t1'', JStr ''j1'', JStr ''j1-details''])"
    by auto
  with c s example_populate run2 show ?thesis
    by auto
qed

section \<open>The job node and its details child (claim C6)\<close>

lemma forOf_messages:
  assumes "\<And>x t h. x \<in> set xs \<Longrightarrow> I h \<Longrightarrow>
      \<exists>cs h'. body x (t, h) = (Inr (), (t @ cs, h')) \<and> I h' \<and> map call_message cs = g x"
    and "I h"
  shows "\<exists>cs h'. forOf body xs (t, h) = (Inr (), (t @ cs, h')) \<and> I h' \<and>
            map call_message cs = concat (map g xs)"
  using assms
proof (induction xs arbitrary: t h)
  case Nil
  then show ?case by simp
next
  case (Cons x xs)
  from Cons.prems(1) [of x h t] Cons.prems(2)
  obtain cs1 h1 where 1: "body x (t, h) = (Inr (), (t @ cs1, h1))" "I h1"
    "map call_message cs1 = g x"
    by auto
  have "\<exists>cs h'. forOf body xs (t @ cs1, h1) = (Inr (), ((t @ cs1) @ cs, h')) \<and> I h' \<and>
            map call_message cs = concat (map g xs)"
    using Cons.prems(1) 1(2) by (intro Cons.IH) simp_all
  then obtain cs2 h2 where 2: "forOf body xs (t @ cs1, h1) = (Inr (), (t @ cs1 @ cs2, h2))"
    "I h2" "map call_message cs2 = concat (map g xs)"
    by auto
  from 1 2 have "forOf body (x # xs) (t, h) = (Inr (), (t @ (cs1 @ cs2), h2)) \<and> I h2 \<and>
      map call_message (cs1 @ cs2) = concat (map g (x # xs))"
    by simp
  then show ?case
    by blast
qed

lemma cyclePointBody_messages:
  assumes "is_record h x" and "sim (length h) h h1"
  shows "\<exists>cs h'. cyclePointBody x (t, h1) = (Inr (), (t @ cs, h')) \<and> sim (length h) h h' \<and>
           map call_message cs = [(''addCyclePoint'', field h x ''cyclePoint'', None)]"
proof -
  from assms(2) have "length h \<le> length h1"
    by (simp add: sim_def)
  then have "sim (length h) h1 (h1 @ ys)" for ys
    by (rule sim_append)
  with assms(2) have "sim (length h) h (h1 @ ys)" for ys
    by (blast intro: sim_trans)
  then show ?thesis
    using record_read [OF assms, of "''cyclePoint''"]
    by (simp add: cyclePointBody_cases call_message_def)
qed

lemma familyProxyBody_messages:
  assumes "is_record h x" and "sim (length h) h h1"
  shows "\<exists>cs h'. familyProxyBody x (t, h1) = (Inr (), (t @ cs, h')) \<and> sim (length h) h h' \<and>
           map call_message cs = [(''addFamilyProxy'', field h x ''id'', None)]"
  using record_read [OF assms, of "''id''"] assms(2)
  by (simp add: familyProxyBody_cases call_message_def)

lemma jobBody_messages:
  assumes "is_record h x" and "sim (length h) h h1" and "a < length h"
  shows "\<exists>cs h'. jobBody (JRef a) x (t, h1) = (Inr (), (t @ cs, h')) \<and> sim (length h) h h' \<and>
           map call_message cs =
             [(''addJob'', field h x ''id'',
               Some (default_message (field h (JRef a) ''latestMessage'')))]"
proof -
  from assms(3) have "is_record h (JRef a)"
    by (simp add: is_record_def)
  then have "getProp h1 (JRef a) ''latestMessage'' = Inr (field h (JRef a) ''latestMessage'')"
    using assms(2) by (rule record_read) simp
  then show ?thesis
    using record_read [OF assms(1,2), of "''id''"] assms(2)
    by (simp add: jobBody_cases createJobNode_def Let_def call_message_def default_message_def)
qed

lemma taskProxyBody_messages:
  assumes "is_task_record h x" and "sim (length h) h h1"
  shows "\<exists>cs h'. taskProxyBody x (t, h1) = (Inr (), (t @ cs, h')) \<and> sim (length h) h h' \<and>
           map call_message cs =
             (''addTaskProxy'', field h x ''id'', None) #
             map (\<lambda>j. (''addJob'', field h j ''id'',
                        Some (default_message (field h x ''latestMessage'')))) (jobs_of h x)"
proof -
  from assms(1) obtain a where x: "x = JRef a" and a: "a < length h"
    by (cases x) (simp_all add: is_task_record_def)
  then have rec: "is_record h x"
    by (simp add: is_record_def)
  let ?h2 = "default_state h1 a"
  let ?n = "TNode (field h x ''id'') ''task-proxy'' (JRef a) [] (Some TREE_ITEM_SIZE)
      (Some False) None"
  let ?m = "Some (default_message (field h (JRef a) ''latestMessage''))"
  from assms(2) have "length h \<le> length h1"
    by (simp add: sim_def)
  then have "sim (length h) h1 ?h2"
    by (rule sim_default_state)
  with assms(2) have sim2: "sim (length h) h ?h2"
    by (blast intro: sim_trans)
  have i: "getProp h1 (JRef a) ''id'' = Inr (field h x ''id'')"
    using record_read [OF rec assms(2), of "''id''"] x by simp
  have j: "getProp ?h2 (JRef a) ''jobs'' = Inr (field h x ''jobs'')"
    using record_read [OF rec sim2, of "''jobs''"] x by simp
  note body = taskProxyBody_JRef [OF i j, of t]
  show ?thesis
  proof (cases "truthy (field h x ''jobs'')")
    case False
    with body sim2 show ?thesis
      unfolding x by (simp add: call_message_def jobs_of_def)
  next
    case True
    with assms(1) obtain js where js: "iterate h (field h x ''jobs'') = Inr js"
      "list_all (is_record h) js"
      by (auto simp: is_task_record_def split: sum.splits)
    then have "val_ok (length h) (field h x ''jobs'')"
      by (cases "field h x ''jobs''")
        (auto simp: val_ok_def iterate.simps lookup_obj_def split: if_splits)
    with js(1) sim2 have it: "iterate ?h2 (field h x ''jobs'') = Inr js"
      by (simp add: iterate_sim)
    have "\<exists>cs h'. forOf (jobBody (JRef a)) js (t @ [AddTaskProxy ?n], ?h2) =
          (Inr (), ((t @ [AddTaskProxy ?n]) @ cs, h')) \<and> sim (length h) h h' \<and>
          map call_message cs = concat (map (\<lambda>j. [(''addJob'', field h j ''id'', ?m)]) js)"
      using js(2) sim2 a
      by (intro forOf_messages [where I = "sim (length h) h"])
        (simp_all add: jobBody_messages list_all_iff)
    then obtain cs h' where run: "forOf (jobBody (JRef a)) js (t @ [AddTaskProxy ?n], ?h2) =
          (Inr (), (t @ AddTaskProxy ?n # cs, h'))" "sim (length h) h h'"
      "map call_message cs = map (\<lambda>j. (''addJob'', field h j ''id'', ?m)) js"
      by auto
    have "jobs_of h x = js"
      using True js(1) by (simp add: jobs_of_def elements_def)
    with body True it run show ?thesis
      unfolding x by (simp add: call_message_def)
  qed
qed

lemma populateBody_messages:
  assumes valid: "containsTreeData h w = Inr (JBool True)" and wf: "well_formed h w"
  shows "\<exists>cs h'. populateBody w (t, h) = (Inr (), (t @ cs, h')) \<and> sim (length h) h h' \<and>
           map call_message cs = expected_messages h w"
proof -
  from valid obtain b c f p cps fps tps where rd: "w = JRef b" "b < length h"
    "getProp h w ''cyclePoints'' = Inr c" "iterate h c = Inr cps" "val_ok (length h) c"
    "getProp h w ''familyProxies'' = Inr f" "iterate h f = Inr fps" "val_ok (length h) f"
    "getProp h w ''taskProxies'' = Inr p" "iterate h p = Inr tps" "val_ok (length h) p"
    by (rule containsTreeData_reads)
  obtain i where i: "getProp h w ''id'' = Inr i"
    using getProp_total [of w] rd(1) by auto
  from rd(1,2) have w: "val_ok (length h) w"
    by (simp add: val_ok_def)
  have el: "elements h (field h w ''cyclePoints'') = cps"
    "elements h (field h w ''familyProxies'') = fps"
    "elements h (field h w ''taskProxies'') = tps"
    using rd by (simp_all add: field_elements)
  with wf have ok: "list_all (is_record h) cps" "list_all (is_record h) fps"
    "list_all (is_task_record h) tps"
    by (simp_all add: well_formed_def)
  let ?root = "SetWorkflow (TNode i ''workflow'' w [] None None None)"
  let ?I = "sim (length h) h"
  let ?g = "\<lambda>x. (''addTaskProxy'', field h x ''id'', None) #
      map (\<lambda>j. (''addJob'', field h j ''id'',
                 Some (default_message (field h x ''latestMessage'')))) (jobs_of h x)"
  have "?I h"
    by (simp add: sim_refl)
  with ok(1) have "\<exists>cs h'. forOf cyclePointBody cps (t @ [?root], h) =
        (Inr (), ((t @ [?root]) @ cs, h')) \<and> ?I h' \<and>
        map call_message cs =
          concat (map (\<lambda>x. [(''addCyclePoint'', field h x ''cyclePoint'', None)]) cps)"
    by (intro forOf_messages [where I = ?I]) (simp_all add: cyclePointBody_messages list_all_iff)
  then obtain cs1 h1 where 1: "forOf cyclePointBody cps (t @ [?root], h) =
        (Inr (), (t @ ?root # cs1, h1))" "?I h1"
    "map call_message cs1 = map (\<lambda>x. (''addCyclePoint'', field h x ''cyclePoint'', None)) cps"
    by auto
  from ok(2) 1(2) have "\<exists>cs h'. forOf familyProxyBody fps (t @ ?root # cs1, h1) =
        (Inr (), ((t @ ?root # cs1) @ cs, h')) \<and> ?I h' \<and>
        map call_message cs = concat (map (\<lambda>x. [(''addFamilyProxy'', field h x ''id'', None)]) fps)"
    by (intro forOf_messages [where I = ?I]) (simp_all add: familyProxyBody_messages list_all_iff)
  then obtain cs2 h2 where 2: "forOf familyProxyBody fps (t @ ?root # cs1, h1) =
        (Inr (), (t @ ?root # cs1 @ cs2, h2))" "?I h2"
    "map call_message cs2 = map (\<lambda>x. (''addFamilyProxy'', field h x ''id'', None)) fps"
    by auto
  from ok(3) 2(2) have "\<exists>cs h'. forOf taskProxyBody tps (t @ ?root # cs1 @ cs2, h2) =
        (Inr (), ((t @ ?root # cs1 @ cs2) @ cs, h')) \<and> ?I h' \<and>
        map call_message cs = concat (map ?g tps)"
    by (intro forOf_messages [where I = ?I]) (simp_all add: taskProxyBody_messages list_all_iff)
  then obtain cs3 h3 where 3: "forOf taskProxyBody tps (t @ ?root # cs1 @ cs2, h2) =
        (Inr (), (t @ ?root # cs1 @ cs2 @ cs3, h3))" "?I h3"
    "map call_message cs3 = concat (map ?g tps)"
    by auto
  have "populateBody w (t, h) = (Inr (), (t @ (?root # cs1 @ cs2 @ cs3), h3))"
    unfolding populateBody_valid [OF i w rd(3-11)] using 1(1) 2(1) 3(1) by simp
  moreover have "map call_message (?root # cs1 @ cs2 @ cs3) = expected_messages h w"
  proof -
    have "field h w ''id'' = i"
      using i by (simp add: field_def)
    with 1(3) 2(3) 3(3) show ?thesis
      by (simp add: expected_messages_def el call_message_def)
  qed
  ultimately show ?thesis
    using 3(2) by blast
qed

lemma createJobNode_total:
  assumes "getProp h job ''id'' = Inr i"
  shows "\<exists>n d. createJobNode h job lm = Inr (n, h) \<and> nid n = i \<and> nnode n = job \<and>
      nchildren n = [d] \<and> ntype d = ''job-details'' \<and>
      nid d = JStr (toStringJS h i @ ''-details'') \<and>
      nsize d = Some (32 * 7) \<and> nstate_open d = Some False \<and>
      nlatestMessage n = Some (if lm = JUndefined then JStr '''' else lm)"
  using assms
  by (simp add: createJobNode_def Let_def TREE_ITEM_SIZE_def JOB_DETAIL_NODE_PROPERTIES_def)

text \<open>
  Claim C6, as stated, says that the \<^verbatim>\<open>latestMessage\<close> of a job node equals the
  \<^verbatim>\<open>latestMessage\<close> of the owning task proxy. The task proxy of the example has no
  \<^verbatim>\<open>latestMessage\<close>, so the routine passes \<^verbatim>\<open>undefined\<close>; the default parameter of
  \<open>createJobNode\<close> then makes the field the empty string, which is not
  \<^verbatim>\<open>undefined\<close>.
\<close>

theorem createJobNode_latestMessage_counterexample:
  "getProp example_heap (JRef 6) ''latestMessage'' = Inr JUndefined \<and>
   jobBody (JRef 6) (JRef 8) ([], example_heap) =
     (Inr (), ([AddJob (example_job_node (JStr ''''))], example_heap)) \<and>
   nlatestMessage (example_job_node (JStr '''')) \<noteq> Some JUndefined"
  by code_simp

text \<open>
  Claim C6, amended. For every job record whose id is not an object, \<open>createJobNode\<close>
  produces a node, with the job's id and exactly one child; the child has type
  \<^verbatim>\<open>job-details\<close>, as id the job's id as a template literal prints it (so a string id
  unchanged) followed by \<^verbatim>\<open>-details\<close>, size 32 times 7, the number of job-detail
  properties, and is closed. The \<^verbatim>\<open>latestMessage\<close> of the job node is the message
  passed to the factory, or the empty string when the message passed is
  \<^verbatim>\<open>undefined\<close>. And on every workflow the validator accepts that is well formed,
  \<open>populateTreeFromGraphQLData\<close> completes, and each job node it adds carries the
  \<^verbatim>\<open>latestMessage\<close> of the task proxy that owns the job, or the empty string when
  that task proxy has none; the other nodes it adds carry no message.
\<close>

theorem createJobNode_details:
  "(job \<noteq> JUndefined \<and> job \<noteq> JNull \<and> getProp h job ''id'' = Inr i \<and> (\<forall>b. i \<noteq> JRef b) \<longrightarrow>
      (\<exists>n d. createJobNode h job lm = Inr (n, h) \<and> nid n = i \<and> nchildren n = [d] \<and>
             ntype d = ''job-details'' \<and>
             nid d = JStr (toStringJS h i @ ''-details'') \<and>
             (\<forall>s. i = JStr s \<longrightarrow> nid d = JStr (s @ ''-details'')) \<and>
             nsize d = Some (32 * 7) \<and>
             length JOB_DETAIL_NODE_PROPERTIES = 7 \<and>
             nstate_open d = Some False \<and>
             nlatestMessage n = Some (if lm = JUndefined then JStr '''' else lm))) \<and>
   (containsTreeData h w = Inr (JBool True) \<and> well_formed h w \<longrightarrow>
      (\<exists>cs h'. populateTreeFromGraphQLData (Some t) w h = (Inr (), Some (t @ cs), h') \<and>
               map call_message cs = expected_messages h w))"
proof (intro conjI impI)
  assume "job \<noteq> JUndefined \<and> job \<noteq> JNull \<and> getProp h job ''id'' = Inr i \<and> (\<forall>b. i \<noteq> JRef b)"
  then have "getProp h job ''id'' = Inr i"
    by simp
  from createJobNode_total [OF this, of lm]
  obtain n d where nd: "createJobNode h job lm = Inr (n, h)" "nid n = i" "nchildren n = [d]"
    "ntype d = ''job-details''" "nid d = JStr (toStringJS h i @ ''-details'')"
    "nsize d = Some (32 * 7)" "nstate_open d = Some False"
    "nlatestMessage n = Some (if lm = JUndefined then JStr '''' else lm)"
    by blast
  from nd(5) have "\<forall>s. i = JStr s \<longrightarrow> nid d = JStr (s @ ''-details'')"
    by (simp add: toStringJS_def)
  moreover have "length JOB_DETAIL_NODE_PROPERTIES = 7"
    by (simp add: JOB_DETAIL_NODE_PROPERTIES_def)
  ultimately show "\<exists>n d. createJobNode h job lm = Inr (n, h) \<and> nid n = i \<and> nchildren n = [d] \<and>
             ntype d = ''job-details'' \<and>
             nid d = JStr (toStringJS h i @ ''-details'') \<and>
             (\<forall>s. i = JStr s \<longrightarrow> nid d = JStr (s @ ''-details'')) \<and>
             nsize d = Some (32 * 7) \<and>
             length JOB_DETAIL_NODE_PROPERTIES = 7 \<and>
             nstate_open d = Some False \<and>
             nlatestMessage n = Some (if lm = JUndefined then JStr '''' else lm)"
    using nd by blast
next
  assume "containsTreeData h w = Inr (JBool True) \<and> well_formed h w"
  then have valid: "containsTreeData h w = Inr (JBool True)" and wf: "well_formed h w"
    by simp_all
  from populateBody_messages [OF valid wf, of t]
  obtain cs h' where "populateBody w (t, h) = (Inr (), (t @ cs, h'))"
    "map call_message cs = expected_messages h w"
    by blast
  then have "populateTreeFromGraphQLData (Some t) w h = (Inr (), Some (t @ cs), h') \<and>
      map call_message cs = expected_messages h w"
    by (simp add: populate_valid [OF valid])
  then show "\<exists>cs h'. populateTreeFromGraphQLData (Some t) w h = (Inr (), Some (t @ cs), h') \<and>
      map call_message cs = expected_messages h w"
    by blast
qed

theorem createJobNode_details_witness:
  "JRef 8 \<noteq> JUndefined \<and> JRef 8 \<noteq> JNull \<and>
   getProp message_heap (JRef 8) ''id'' = Inr (JStr ''j1'') \<and>
   containsTreeData message_heap (JRef 0) = Inr (JBool True) \<and>
   well_formed message_heap (JRef 0) \<and>
   expected_messages message_heap (JRef 0) =
     [(''setWorkflow'', JStr ''w1'', None), (''addCyclePoint'', JStr ''2024'', None),
      (''addFamilyProxy'', JStr ''f1'', None), (''addTaskProxy'', JStr ''t1'', None),
      (''addJob'', JStr ''j1'', Some (JStr ''started''))] \<and>
   (\<exists>n d. createJobNode message_heap (JRef 8) JUndefined = Inr (n, message_heap) \<and>
      nid n = JStr ''j1'' \<and> nchildren n = [d] \<and> ntype d = ''job-details'' \<and>
      nid d = JStr ''j1-details'' \<and> nsize d = Some 224 \<and> nstate_open d = Some False \<and>
      nlatestMessage n = Some (JStr '''')) \<and>
   (\<exists>cs h'. populateTreeFromGraphQLData (Some []) (JRef 0) message_heap =
        (Inr (), Some cs, h') \<and>
      map call_message cs =
        [(''setWorkflow'', JStr ''w1'', None), (''addCyclePoint'', JStr ''2024'', None),
         (''addFamilyProxy'', JStr ''f1'', None), (''addTaskProxy'', JStr ''t1'', None),
         (''addJob'', JStr ''j1'', Some (JStr ''started''))])"
proof -
  have i: "getProp message_heap (JRef 8) ''id'' = Inr (JStr ''j1'')"
    by code_simp
  have v: "containsTreeData message_heap (JRef 0) = Inr (JBool True)"
    by code_simp
  have wf: "well_formed message_heap (JRef 0)"
    by code_simp
  have e: "expected_messages message_heap (JRef 0) =
     [(''setWorkflow'', JStr ''w1'', None), (''addCyclePoint'', JStr ''2024'', None),
      (''addFamilyProxy'', JStr ''f1'', None), (''addTaskProxy'', JStr ''t1'', None),
      (''addJob'', JStr ''j1'', Some (JStr ''started''))]"
    by code_simp
  note inst = createJobNode_details [of "JRef 8" message_heap "JStr ''j1''" JUndefined
      "JRef 0" "[]"]
  from inst i have "\<exists>n d. createJobNode message_heap (JRef 8) JUndefined = Inr (n, message_heap) \<and>
      nid n = JStr ''j1'' \<and> nchildren n = [d] \<and> ntype d = ''job-details'' \<and>
      nid d = JStr ''j1-details'' \<and> nsize d = Some 224 \<and> nstate_open d = Some False \<and>
      nlatestMessage n = Some (JStr '''')"
    by auto
  moreover from inst v wf e have "\<exists>cs h'. populateTreeFromGraphQLData (Some []) (JRef 0) message_heap =
        (Inr (), Some cs, h') \<and>
      map call_message cs =
        [(''setWorkflow'', JStr ''w1'', None), (''addCyclePoint'', JStr ''2024'', None),
         (''addFamilyProxy'', JStr ''f1'', None), (''addTaskProxy'', JStr ''t1'', None),
         (''addJob'', JStr ''j1'', Some (JStr ''started''))]"
    by simp
  ultimately show ?thesis
    using i v wf e by simp
qed

end
